theory Spec2Isabelle
  imports Complex_Main "HOL-Library.AList"
begin

section \<open>Values and errors\<close>

text \<open>
  The two packages are TypeScript modules (strict mode). Values whose static type is
  \<open>unknown\<close> or \<open>any\<close> (metadata values, the fields of a document returned by the
  search service) are modelled by \<open>jsvalue\<close>. An object is an association list in
  insertion order. Numbers are only carried around, zero-filled and tested for
  truthiness by the code, never computed with; they are modelled by \<open>real\<close>.
\<close>

datatype jsvalue =
    JUndefined
  | JNull
  | JBool bool
  | JNum real
  | JStr string
  | JArr "jsvalue list"
  | JObj "(string \<times> jsvalue) list"

text \<open>
  An exception is a value: \<open>ServiceError\<close> is whatever a call of the remote service
  rejects with, \<open>TypeError\<close> and \<open>RangeError\<close> are the exceptions the JavaScript
  runtime raises itself.
\<close>

datatype error = ServiceError string | TypeError | RangeError

text \<open>JavaScript truthiness, as tested by \<open>if (v)\<close> and \<open>v && ...\<close>.\<close>

fun truthy :: "jsvalue \<Rightarrow> bool" where
  "truthy JUndefined = False"
| "truthy JNull = False"
| "truthy (JBool b) = b"
| "truthy (JNum n) = (n \<noteq> 0)"
| "truthy (JStr s) = (s \<noteq> [])"
| "truthy (JArr xs) = True"
| "truthy (JObj kvs) = True"

text \<open>\<open>v ?? d\<close>: the default replaces \<open>undefined\<close> and \<open>null\<close> only.\<close>

fun nullish :: "jsvalue \<Rightarrow> bool" where
  "nullish JUndefined = True"
| "nullish JNull = True"
| "nullish v = False"

definition coalesce :: "jsvalue \<Rightarrow> jsvalue \<Rightarrow> jsvalue" where
  "coalesce v d = (if nullish v then d else v)"

text \<open>Reading a property of an object: \<open>undefined\<close> when the key is absent.\<close>

definition get_prop :: "(string \<times> jsvalue) list \<Rightarrow> string \<Rightarrow> jsvalue" where
  "get_prop obj k = (case map_of obj k of None \<Rightarrow> JUndefined | Some v \<Rightarrow> v)"

section \<open>document-intelligence: \<open>processor.ts\<close>\<close>

subsection \<open>The raw analysis result (\<open>AnalyzeResultOutput\<close>) and the parsed document\<close>

text \<open>
  Counts, indices and page numbers have the TypeScript type \<open>number\<close>; the service
  sends integers, modelled by \<open>int\<close>. Optional properties are \<open>option\<close>s.
\<close>

record raw_line =
  line_content :: string

record raw_page =
  page_pageNumber :: int
  page_lines :: "raw_line list option"
  page_width :: "real option"
  page_height :: "real option"

record raw_cell =
  cell_rowIndex :: int
  cell_columnIndex :: int
  cell_content :: "string option"

record raw_region =
  region_pageNumber :: int

record raw_table =
  table_rowCount :: int
  table_columnCount :: int
  table_cells :: "raw_cell list option"
  table_boundingRegions :: "raw_region list option"

record analyze_result =
  result_content :: "string option"
  result_pages :: "raw_page list option"
  result_tables :: "raw_table list option"

record PageContent =
  pc_pageNumber :: int
  pc_content :: string
  pc_width :: "real option"
  pc_height :: "real option"

record TableContent =
  tc_rowCount :: int
  tc_columnCount :: int
  tc_cells :: "string list list"
  tc_pageNumber :: "int option"

text \<open>
  \<open>metadata.processedAt\<close> is the wall-clock time of the call and \<open>metadata.modelId\<close>
  a field of the processor; both are arguments of the model.
\<close>

record DocumentMetadata =
  dm_pageCount :: nat
  dm_modelId :: string
  dm_processedAt :: nat

record ProcessedDocument =
  pd_content :: string
  pd_pages :: "PageContent list"
  pd_tables :: "TableContent list option"
  pd_metadata :: DocumentMetadata

subsection \<open>Pages\<close>

text \<open>\<open>Array.prototype.join\<close> on strings.\<close>

fun join :: "string \<Rightarrow> string list \<Rightarrow> string" where
  "join sep [] = []"
| "join sep [x] = x"
| "join sep (x # y # ys) = x @ sep @ join sep (y # ys)"

definition parse_page :: "raw_page \<Rightarrow> PageContent" where
  "parse_page page =
     (let pageContent =
            (case page_lines page of
               None \<Rightarrow> []
             | Some ls \<Rightarrow> join [CHR 0x0A] (map line_content ls))
      in \<lparr> pc_pageNumber = page_pageNumber page,
           pc_content = pageContent,
           pc_width = page_width page,
           pc_height = page_height page \<rparr>)"

definition parse_pages :: "analyze_result \<Rightarrow> PageContent list" where
  "parse_pages result =
     (case result_pages result of None \<Rightarrow> [] | Some ps \<Rightarrow> map parse_page ps)"

subsection \<open>Tables\<close>

text \<open>
  \<open>new Array(n).fill("")\<close>: the constructor raises RangeError unless \<open>n\<close> is an
  integer in \<open>0 .. 2^32 - 1\<close>.
\<close>

definition new_row :: "int \<Rightarrow> error + string list" where
  "new_row n =
     (if 0 \<le> n \<and> n < 2 ^ 32 then Inr (replicate (nat n) []) else Inl RangeError)"

text \<open>\<open>for (let i = 0; i < table.rowCount; i++) cells.push(new Array(...).fill(""))\<close>\<close>

function init_cells :: "int \<Rightarrow> int \<Rightarrow> int \<Rightarrow> string list list \<Rightarrow> error + string list list" where
  "init_cells i rowCount columnCount cells =
     (if i < rowCount then
        (case new_row columnCount of
           Inl e \<Rightarrow> Inl e
         | Inr row \<Rightarrow> init_cells (i + 1) rowCount columnCount (cells @ [row]))
      else Inr cells)"
  by pat_completeness auto
termination
  by (relation "measure (\<lambda>(i, rowCount, columnCount, cells). nat (rowCount - i))") auto

declare init_cells.simps [simp del]

text \<open>
  One iteration of the loop over \<open>table.cells\<close>. Inside the guard,
  \<open>cells[rowIndex]\<close> is \<open>undefined\<close> when \<open>rowIndex\<close> is not an index of \<open>cells\<close>, and
  assigning a property of \<open>undefined\<close> raises TypeError. A negative \<open>colIndex\<close> names
  a property of the row that is not one of its elements, so the elements stay as they
  are. (Under the guard \<open>colIndex\<close> never reaches the end of a row: every row has
  \<open>columnCount\<close> elements, see \<open>init_cells_shape\<close>.)
\<close>

definition place_cell :: "int \<Rightarrow> int \<Rightarrow> string list list \<Rightarrow> raw_cell \<Rightarrow> error + string list list" where
  "place_cell rowCount columnCount cells cell =
     (let rowIndex = cell_rowIndex cell; colIndex = cell_columnIndex cell in
      if rowIndex < rowCount \<and> colIndex < columnCount then
        (if rowIndex < 0 \<or> int (length cells) \<le> rowIndex then Inl TypeError
         else if colIndex < 0 then Inr cells
         else Inr (cells[nat rowIndex :=
                     (cells ! nat rowIndex)[nat colIndex :=
                        (case cell_content cell of None \<Rightarrow> [] | Some c \<Rightarrow> c)]]))
      else Inr cells)"

fun fill_cells :: "int \<Rightarrow> int \<Rightarrow> string list list \<Rightarrow> raw_cell list \<Rightarrow> error + string list list" where
  "fill_cells rowCount columnCount cells [] = Inr cells"
| "fill_cells rowCount columnCount cells (cell # rest) =
     (case place_cell rowCount columnCount cells cell of
        Inl e \<Rightarrow> Inl e
      | Inr cells' \<Rightarrow> fill_cells rowCount columnCount cells' rest)"

text \<open>\<open>table.boundingRegions?.[0]?.pageNumber\<close>\<close>

definition first_region_page :: "raw_table \<Rightarrow> int option" where
  "first_region_page table =
     (case table_boundingRegions table of
        None \<Rightarrow> None
      | Some [] \<Rightarrow> None
      | Some (r # rs) \<Rightarrow> Some (region_pageNumber r))"

definition parse_table :: "raw_table \<Rightarrow> error + TableContent" where
  "parse_table table =
     (case init_cells 0 (table_rowCount table) (table_columnCount table) [] of
        Inl e \<Rightarrow> Inl e
      | Inr cells0 \<Rightarrow>
          (case (case table_cells table of
                   None \<Rightarrow> Inr cells0
                 | Some cs \<Rightarrow> fill_cells (table_rowCount table) (table_columnCount table) cells0 cs) of
             Inl e \<Rightarrow> Inl e
           | Inr cells \<Rightarrow>
               Inr \<lparr> tc_rowCount = table_rowCount table,
                     tc_columnCount = table_columnCount table,
                     tc_cells = cells,
                     tc_pageNumber = first_region_page table \<rparr>))"

fun parse_tables :: "raw_table list \<Rightarrow> error + TableContent list" where
  "parse_tables [] = Inr []"
| "parse_tables (t # ts) =
     (case parse_table t of
        Inl e \<Rightarrow> Inl e
      | Inr tc \<Rightarrow> (case parse_tables ts of Inl e \<Rightarrow> Inl e | Inr tcs \<Rightarrow> Inr (tc # tcs)))"

definition parseAnalyzeResult :: "string \<Rightarrow> nat \<Rightarrow> analyze_result \<Rightarrow> error + ProcessedDocument" where
  "parseAnalyzeResult modelId now result =
     (let pages = parse_pages result in
      case (case result_tables result of None \<Rightarrow> Inr [] | Some ts \<Rightarrow> parse_tables ts) of
        Inl e \<Rightarrow> Inl e
      | Inr tables \<Rightarrow>
          Inr \<lparr> pd_content = (case result_content result of None \<Rightarrow> [] | Some c \<Rightarrow> c),
                pd_pages = pages,
                pd_tables = (if length tables > 0 then Some tables else None),
                pd_metadata =
                  \<lparr> dm_pageCount = (case result_pages result of None \<Rightarrow> 0 | Some ps \<Rightarrow> length ps),
                    dm_modelId = modelId,
                    dm_processedAt = now \<rparr> \<rparr>)"

subsection \<open>Vocabulary of the parser's properties\<close>

definition raw_pages :: "analyze_result \<Rightarrow> raw_page list" where
  "raw_pages result = (case result_pages result of None \<Rightarrow> [] | Some ps \<Rightarrow> ps)"

definition raw_tables :: "analyze_result \<Rightarrow> raw_table list" where
  "raw_tables result = (case result_tables result of None \<Rightarrow> [] | Some ts \<Rightarrow> ts)"

definition reported_cells :: "raw_table \<Rightarrow> raw_cell list" where
  "reported_cells table = (case table_cells table of None \<Rightarrow> [] | Some cs \<Rightarrow> cs)"

definition parsed_tables :: "ProcessedDocument \<Rightarrow> TableContent list" where
  "parsed_tables pd = (case pd_tables pd of None \<Rightarrow> [] | Some ts \<Rightarrow> ts)"

definition page_numbers :: "error + ProcessedDocument \<Rightarrow> int list" where
  "page_numbers r = (case r of Inl e \<Rightarrow> [] | Inr pd \<Rightarrow> map pc_pageNumber (pd_pages pd))"

text \<open>
  A table as the analysis service reports it: counts and indices are non-negative
  integers (and a column count is a legal array length).
\<close>

definition table_wellformed :: "raw_table \<Rightarrow> bool" where
  "table_wellformed table \<longleftrightarrow>
     0 \<le> table_rowCount table \<and> 0 \<le> table_columnCount table \<and>
     table_columnCount table < 2 ^ 32 \<and>
     (\<forall>cell \<in> set (reported_cells table).
        0 \<le> cell_rowIndex cell \<and> 0 \<le> cell_columnIndex cell)"

text \<open>
  The specification of one grid position, in the words of the spec: start from the
  default \<open>d\<close>; each reported cell, in order, replaces the value when it lies within
  the declared bounds and is reported for this position, and is dropped otherwise.
\<close>

fun spec_cell_at :: "int \<Rightarrow> int \<Rightarrow> raw_cell list \<Rightarrow> int \<Rightarrow> int \<Rightarrow> string \<Rightarrow> string" where
  "spec_cell_at rowCount columnCount [] r c d = d"
| "spec_cell_at rowCount columnCount (cell # cs) r c d =
     spec_cell_at rowCount columnCount cs r c
       (if cell_rowIndex cell < rowCount \<and> cell_columnIndex cell < columnCount \<and>
           cell_rowIndex cell = r \<and> cell_columnIndex cell = c
        then (case cell_content cell of None \<Rightarrow> [] | Some v \<Rightarrow> v)
        else d)"

definition grid_shape :: "int \<Rightarrow> int \<Rightarrow> string list list \<Rightarrow> bool" where
  "grid_shape rowCount columnCount cells \<longleftrightarrow>
     length cells = nat rowCount \<and> (\<forall>row \<in> set cells. length row = nat columnCount)"

definition table_matches :: "raw_table \<Rightarrow> TableContent \<Rightarrow> bool" where
  "table_matches table tc \<longleftrightarrow>
     grid_shape (table_rowCount table) (table_columnCount table) (tc_cells tc) \<and>
     (\<forall>r c. 0 \<le> r \<and> r < table_rowCount table \<and> 0 \<le> c \<and> c < table_columnCount table \<longrightarrow>
        tc_cells tc ! nat r ! nat c =
          spec_cell_at (table_rowCount table) (table_columnCount table)
            (reported_cells table) r c [])"

text \<open>Fixtures: the table of the spec's scenarios, with an extra cell out of bounds;
  and a raw result whose two pages come in the order 2, 1.\<close>

definition scenario_table :: raw_table where
  "scenario_table =
     \<lparr> table_rowCount = 2, table_columnCount = 2,
       table_cells = Some
         [\<lparr> cell_rowIndex = 0, cell_columnIndex = 0, cell_content = Some ''A'' \<rparr>,
          \<lparr> cell_rowIndex = 2, cell_columnIndex = 0, cell_content = Some ''X'' \<rparr>],
       table_boundingRegions = Some [\<lparr> region_pageNumber = 1 \<rparr>] \<rparr>"

definition scenario_result :: analyze_result where
  "scenario_result =
     \<lparr> result_content = Some ''A'', result_pages = None,
       result_tables = Some [scenario_table] \<rparr>"

definition swapped_pages_result :: analyze_result where
  "swapped_pages_result =
     \<lparr> result_content = None,
       result_pages = Some
         [\<lparr> page_pageNumber = 2, page_lines = None, page_width = None, page_height = None \<rparr>,
          \<lparr> page_pageNumber = 1, page_lines = None, page_width = None, page_height = None \<rparr>],
       result_tables = None \<rparr>"

subsection \<open>The cell grid\<close>

lemma init_cells_eq:
  "0 \<le> c \<Longrightarrow> c < 2 ^ 32 \<Longrightarrow>
   init_cells i n c acc = Inr (acc @ replicate (nat (n - i)) (replicate (nat c) []))"
proof (induction i n c acc rule: init_cells.induct)
  case (1 i rowCount columnCount cells)
  show ?case
  proof (cases "i < rowCount")
    case True
    then have "nat (rowCount - i) = Suc (nat (rowCount - (i + 1)))" by simp
    with True 1 show ?thesis
      by (simp add: new_row_def replicate_app_Cons_same init_cells.simps[of i])
  next
    case False
    then show ?thesis by (simp add: init_cells.simps[of i])
  qed
qed

lemma init_cells_shape:
  "0 \<le> c \<Longrightarrow> c < 2 ^ 32 \<Longrightarrow> init_cells 0 n c [] = Inr g \<Longrightarrow> grid_shape n c g"
  by (auto simp: init_cells_eq grid_shape_def)

lemma place_cell_ok:
  assumes "grid_shape R C g" "0 \<le> cell_rowIndex cell" "0 \<le> cell_columnIndex cell"
  shows "place_cell R C g cell =
     Inr (if cell_rowIndex cell < R \<and> cell_columnIndex cell < C
          then g[nat (cell_rowIndex cell) :=
                    (g ! nat (cell_rowIndex cell))[nat (cell_columnIndex cell) :=
                        (case cell_content cell of None \<Rightarrow> [] | Some v \<Rightarrow> v)]]
          else g)"
  using assms by (auto simp: place_cell_def grid_shape_def Let_def)

lemma grid_shape_update:
  assumes sh: "grid_shape R C g"
  shows "grid_shape R C (g[i := (g ! i)[j := v]])"
proof (cases "i < length g")
  case True
  have "set (g[i := (g ! i)[j := v]]) \<subseteq> insert ((g ! i)[j := v]) (set g)"
    by (rule set_update_subset_insert)
  moreover have "length ((g ! i)[j := v]) = nat C"
    using sh True by (simp add: grid_shape_def)
  ultimately show ?thesis
    using sh by (auto simp: grid_shape_def)
next
  case False
  then have "g[i := (g ! i)[j := v]] = g"
    by (simp add: list_update_beyond)
  with sh show ?thesis by simp
qed

lemma fill_cells_ok:
  assumes "grid_shape R C g"
    and "\<forall>cell \<in> set cs. 0 \<le> cell_rowIndex cell \<and> 0 \<le> cell_columnIndex cell"
  shows "\<exists>g'. fill_cells R C g cs = Inr g' \<and> grid_shape R C g' \<and>
           (\<forall>r c. 0 \<le> r \<and> r < R \<and> 0 \<le> c \<and> c < C \<longrightarrow>
                g' ! nat r ! nat c = spec_cell_at R C cs r c (g ! nat r ! nat c))"
  using assms
proof (induction cs arbitrary: g)
  case Nil
  then show ?case by simp
next
  case (Cons cell cs)
  let ?g1 = "if cell_rowIndex cell < R \<and> cell_columnIndex cell < C
          then g[nat (cell_rowIndex cell) :=
                    (g ! nat (cell_rowIndex cell))[nat (cell_columnIndex cell) :=
                        (case cell_content cell of None \<Rightarrow> [] | Some v \<Rightarrow> v)]]
          else g"
  have pc: "place_cell R C g cell = Inr ?g1"
    using Cons.prems by (intro place_cell_ok) auto
  have sh: "grid_shape R C ?g1"
    using Cons.prems(1) by (simp add: grid_shape_update)
  from Cons.IH[OF sh] Cons.prems(2)
  obtain g' where g': "fill_cells R C ?g1 cs = Inr g'" "grid_shape R C g'"
     "\<forall>r c. 0 \<le> r \<and> r < R \<and> 0 \<le> c \<and> c < C \<longrightarrow>
                g' ! nat r ! nat c = spec_cell_at R C cs r c (?g1 ! nat r ! nat c)"
    by auto
  have step: "?g1 ! nat r ! nat c =
       (if cell_rowIndex cell < R \<and> cell_columnIndex cell < C \<and>
           cell_rowIndex cell = r \<and> cell_columnIndex cell = c
        then (case cell_content cell of None \<Rightarrow> [] | Some v \<Rightarrow> v) else g ! nat r ! nat c)"
    if "0 \<le> r" "r < R" "0 \<le> c" "c < C" for r c
    using that Cons.prems
    by (auto simp: grid_shape_def nth_list_update)
  show ?case
    using pc g' step by simp
qed

lemma parse_table_ok:
  assumes "table_wellformed t"
  shows "\<exists>tc. parse_table t = Inr tc \<and> table_matches t tc"
proof -
  let ?R = "table_rowCount t" and ?C = "table_columnCount t"
  let ?g0 = "replicate (nat ?R) (replicate (nat ?C) [])"
  have i0: "init_cells 0 ?R ?C [] = Inr ?g0"
    using assms by (simp add: init_cells_eq table_wellformed_def)
  have sh0: "grid_shape ?R ?C ?g0"
    by (simp add: grid_shape_def)
  have nn: "\<forall>cell \<in> set (reported_cells t). 0 \<le> cell_rowIndex cell \<and> 0 \<le> cell_columnIndex cell"
    using assms by (simp add: table_wellformed_def)
  from fill_cells_ok[OF sh0 nn]
  obtain g' where g': "fill_cells ?R ?C ?g0 (reported_cells t) = Inr g'" "grid_shape ?R ?C g'"
     "\<forall>r c. 0 \<le> r \<and> r < ?R \<and> 0 \<le> c \<and> c < ?C \<longrightarrow>
          g' ! nat r ! nat c = spec_cell_at ?R ?C (reported_cells t) r c (?g0 ! nat r ! nat c)"
    by blast
  have dflt: "?g0 ! nat r ! nat c = []" if "0 \<le> r" "r < ?R" "0 \<le> c" "c < ?C" for r c
    using that by simp
  have filled: "(case table_cells t of None \<Rightarrow> Inr ?g0
                 | Some cs \<Rightarrow> fill_cells ?R ?C ?g0 cs) = Inr g'"
    using g'(1) by (cases "table_cells t") (simp_all add: reported_cells_def)
  have "parse_table t = Inr \<lparr> tc_rowCount = ?R, tc_columnCount = ?C, tc_cells = g',
                               tc_pageNumber = first_region_page t \<rparr>"
    by (simp add: parse_table_def i0 filled)
  moreover have "table_matches t \<lparr> tc_rowCount = ?R, tc_columnCount = ?C, tc_cells = g',
                               tc_pageNumber = first_region_page t \<rparr>"
    using g'(2,3) dflt by (simp add: table_matches_def)
  ultimately show ?thesis by blast
qed

lemma parse_tables_ok:
  assumes "\<forall>t \<in> set ts. table_wellformed t"
  shows "\<exists>tcs. parse_tables ts = Inr tcs \<and> list_all2 table_matches ts tcs"
  using assms
proof (induction ts)
  case Nil
  then show ?case by simp
next
  case (Cons t ts)
  from Cons.prems obtain tc where tc: "parse_table t = Inr tc" "table_matches t tc"
    using parse_table_ok by auto
  from Cons obtain tcs where tcs: "parse_tables ts = Inr tcs" "list_all2 table_matches ts tcs"
    by auto
  show ?case using tc tcs by simp
qed

text \<open>
  \<^bold>\<open>Claim C7.\<close> For every raw analysis result (its tables as the service reports
  them: counts and indices non-negative integers), parsing succeeds, and each parsed
  table corresponds to the raw table at the same position: its grid has exactly
  \<open>rowCount\<close> rows of exactly \<open>columnCount\<close> strings, and every position holds the
  empty string unless a reported cell with \<open>rowIndex < rowCount\<close> and
  \<open>columnIndex < columnCount\<close> names it, in which case it holds the content of the
  last such cell. A cell outside the bounds changes no position and raises no error.
\<close>

theorem parsed_table_grids:
  assumes "\<forall>t \<in> set (raw_tables result). table_wellformed t"
  shows "\<exists>pd. parseAnalyzeResult modelId now result = Inr pd \<and>
           list_all2 table_matches (raw_tables result) (parsed_tables pd)"
proof -
  from parse_tables_ok[OF assms]
  obtain tcs where tcs: "parse_tables (raw_tables result) = Inr tcs"
      "list_all2 table_matches (raw_tables result) tcs"
    by blast
  have "(case result_tables result of None \<Rightarrow> Inr [] | Some ts \<Rightarrow> parse_tables ts) = Inr tcs"
    using tcs(1) by (cases "result_tables result") (simp_all add: raw_tables_def)
  then obtain pd where pd: "parseAnalyzeResult modelId now result = Inr pd"
      "pd_tables pd = (if length tcs > 0 then Some tcs else None)"
    by (simp add: parseAnalyzeResult_def Let_def)
  have "parsed_tables pd = tcs"
    using pd(2) by (cases tcs) (simp_all add: parsed_tables_def)
  with pd(1) tcs(2) show ?thesis by simp
qed

theorem parsed_table_grids_witness:
  "table_wellformed scenario_table \<and>
   (\<exists>pd. parseAnalyzeResult ''prebuilt-layout'' 0 scenario_result = Inr pd \<and>
      list_all2 table_matches [scenario_table] (parsed_tables pd)) \<and>
   map tc_cells (parsed_tables (projr (parseAnalyzeResult ''prebuilt-layout'' 0 scenario_result)))
     = [[[''A'', ''''], ['''', '''']]]"
proof -
  have wf: "table_wellformed scenario_table"
    by (simp add: table_wellformed_def scenario_table_def reported_cells_def)
  have rt: "raw_tables scenario_result = [scenario_table]"
    by (simp add: raw_tables_def scenario_result_def)
  have "\<forall>t \<in> set (raw_tables scenario_result). table_wellformed t"
    using wf rt by simp
  from parsed_table_grids[OF this, of "''prebuilt-layout''" 0]
  have ex: "\<exists>pd. parseAnalyzeResult ''prebuilt-layout'' 0 scenario_result = Inr pd \<and>
      list_all2 table_matches [scenario_table] (parsed_tables pd)"
    using rt by simp
  have i2: "init_cells 0 2 2 [] = Inr [['''', ''''], ['''', '''']]"
    by (simp add: init_cells_eq numeral_2_eq_2)
  have "parse_table scenario_table =
      Inr \<lparr> tc_rowCount = 2, tc_columnCount = 2, tc_cells = [[''A'', ''''], ['''', '''']],
            tc_pageNumber = Some 1 \<rparr>"
    by (simp add: parse_table_def scenario_table_def i2 place_cell_def first_region_page_def)
  then have "map tc_cells (parsed_tables (projr (parseAnalyzeResult ''prebuilt-layout'' 0 scenario_result)))
     = [[[''A'', ''''], ['''', '''']]]"
    by (simp add: parseAnalyzeResult_def scenario_result_def parsed_tables_def Let_def)
  with wf ex show ?thesis by blast
qed

subsection \<open>Page numbers\<close>

text \<open>
  \<^bold>\<open>Claim C8\<close> says that for every raw analysis result the page numbers of the output
  are 1-indexed and non-decreasing. The parser copies each raw page number and keeps
  the raw order; it neither sorts nor checks. For the raw pages 2, 1 the output is 2, 1.
\<close>

theorem page_numbers_counterexample:
  "page_numbers (parseAnalyzeResult ''prebuilt-layout'' 0 swapped_pages_result) = [2, 1] \<and>
   \<not> sorted (page_numbers (parseAnalyzeResult ''prebuilt-layout'' 0 swapped_pages_result))"
  by (simp add: page_numbers_def parseAnalyzeResult_def swapped_pages_result_def
        parse_pages_def parse_page_def Let_def)

text \<open>
  \<^bold>\<open>Claim C8, amended.\<close> The output pages carry the raw pages' numbers unchanged and
  in the raw order; so they are 1-indexed and non-decreasing exactly when the raw
  result's page numbers are.
\<close>

theorem page_numbers_carried:
  assumes "parseAnalyzeResult modelId now result = Inr pd"
  shows "map pc_pageNumber (pd_pages pd) = map page_pageNumber (raw_pages result) \<and>
         (sorted (map pc_pageNumber (pd_pages pd)) \<longleftrightarrow>
            sorted (map page_pageNumber (raw_pages result))) \<and>
         ((\<forall>p \<in> set (pd_pages pd). 1 \<le> pc_pageNumber p) \<longleftrightarrow>
            (\<forall>p \<in> set (raw_pages result). 1 \<le> page_pageNumber p))"
proof -
  have pages: "pd_pages pd = parse_pages result"
    using assms by (auto simp: parseAnalyzeResult_def Let_def split: sum.splits)
  have nums: "map pc_pageNumber (parse_pages result) = map page_pageNumber (raw_pages result)"
    by (cases "result_pages result") (simp_all add: parse_pages_def raw_pages_def parse_page_def)
  have "pc_pageNumber ` set (pd_pages pd) = page_pageNumber ` set (raw_pages result)"
    using pages nums by (metis set_map)
  then have "(\<forall>n \<in> pc_pageNumber ` set (pd_pages pd). 1 \<le> n) \<longleftrightarrow>
            (\<forall>n \<in> page_pageNumber ` set (raw_pages result). 1 \<le> n)"
    by simp
  then have "(\<forall>p \<in> set (pd_pages pd). 1 \<le> pc_pageNumber p) \<longleftrightarrow>
            (\<forall>p \<in> set (raw_pages result). 1 \<le> page_pageNumber p)"
    by (simp only: ball_simps)
  with pages nums show ?thesis by simp
qed

theorem page_numbers_carried_witness:
  "parseAnalyzeResult ''prebuilt-layout'' 0 swapped_pages_result =
     Inr (projr (parseAnalyzeResult ''prebuilt-layout'' 0 swapped_pages_result)) \<and>
   map pc_pageNumber (pd_pages (projr (parseAnalyzeResult ''prebuilt-layout'' 0 swapped_pages_result)))
     = [2, 1]"
proof -
  have r: "parseAnalyzeResult ''prebuilt-layout'' 0 swapped_pages_result =
     Inr (projr (parseAnalyzeResult ''prebuilt-layout'' 0 swapped_pages_result))"
    by (simp add: parseAnalyzeResult_def swapped_pages_result_def Let_def)
  from page_numbers_carried[OF r]
  have "map pc_pageNumber (pd_pages (projr (parseAnalyzeResult ''prebuilt-layout'' 0 swapped_pages_result)))
     = map page_pageNumber (raw_pages swapped_pages_result)"
    by blast
  then show ?thesis
    using r by (simp add: raw_pages_def swapped_pages_result_def)
qed

section \<open>azure-ai-search: \<open>azure-search-vector.ts\<close>\<close>

subsection \<open>The platform\<close>

text \<open>
  Functions of the JavaScript runtime that the adapter calls are parameters of the
  model. \<open>json_parse\<close> returns \<open>None\<close> where \<open>JSON.parse\<close> throws SyntaxError.
  \<open>randomUUID n\<close> is the value of the \<open>n\<close>-th call of \<open>crypto.randomUUID()\<close> in the
  process.
\<close>

record platform =
  json_stringify :: "jsvalue \<Rightarrow> string"
  json_parse :: "string \<Rightarrow> jsvalue option"
  js_String :: "jsvalue \<Rightarrow> string"
  randomUUID :: "nat \<Rightarrow> string"

subsection \<open>The search service's data (\<open>@azure/search-documents\<close>)\<close>

text \<open>
  A property that the code tests with \<open>in\<close>: missing from the object, there with
  the value \<open>undefined\<close> or \<open>null\<close>, or there with a value.
\<close>

datatype 'a property = Absent | Nullish | Value 'a

record search_field =
  field_name :: string
  field_type :: string
  field_key :: "bool option"
  field_filterable :: "bool option"
  field_searchable :: "bool option"
  field_vectorSearchDimensions :: "int property"
  field_vectorSearchProfileName :: "string option"

record hnsw_parameters =
  hp_metric :: "string option"
  hp_m :: int
  hp_efConstruction :: int
  hp_efSearch :: int

record algorithm =
  alg_name :: string
  alg_kind :: string
  alg_parameters :: "hnsw_parameters option"

record profile =
  prof_name :: string
  prof_algorithmConfigurationName :: string

record vector_search =
  vs_algorithms :: "algorithm list option"
  vs_profiles :: "profile list option"

record search_index =
  idx_name :: string
  idx_fields :: "search_field list option"
  idx_vectorSearch :: "vector_search option"

text \<open>
  A document as the adapter sends it. An upload carries all four properties, a merge
  the id and the properties to change.
\<close>

record document =
  doc_id :: string
  doc_vector :: "real list option"
  doc_metadata :: "string option"
  doc_text :: "jsvalue option"

text \<open>
  The options of \<open>searchClient.search("*", ...)\<close>: the one vector query (kind
  \<open>vector\<close>, over the field \<open>vector\<close>), the filter, \<open>top\<close> and \<open>select\<close>.
\<close>

record search_options =
  so_vector :: "real list"
  so_kNearestNeighborsCount :: int
  so_filter :: "string option"
  so_top :: int
  so_select :: "string list"

text \<open>A hit as the service returns it: a document of type \<open>Record<string, unknown>\<close>.\<close>

record search_doc =
  sd_id :: string
  sd_metadata :: jsvalue
  sd_text :: jsvalue
  sd_vector :: jsvalue

record hit =
  hit_document :: search_doc
  hit_score :: "real option"

subsection \<open>The service and the world\<close>

text \<open>
  The calls the adapter issues to the service, in order, are the observable effect of
  every operation.
\<close>

datatype call =
    CreateOrUpdateIndex search_index
  | GetIndex string
  | GetDocumentsCount string
  | DeleteIndex string
  | ListIndexes
  | UploadDocuments string "document list"
  | MergeDocuments string "document list"
  | DeleteDocuments string "string list"
  | Search string search_options

text \<open>
  The service is not part of the repository. It is any deterministic machine: the
  answer to a call is a function of the calls issued before it (the first argument)
  and of the call. An \<open>error\<close> answer is the rejection of the promise. A search
  answers with all its hits at once, or with the error that the call or the iteration
  over its result pages raises.
  \<open>DeleteDocuments\<close> takes documents that hold an id only; they are modelled by
  their ids.
\<close>

record service =
  svc_createOrUpdateIndex :: "call list \<Rightarrow> search_index \<Rightarrow> error option"
  svc_getIndex :: "call list \<Rightarrow> string \<Rightarrow> error + search_index"
  svc_getDocumentsCount :: "call list \<Rightarrow> string \<Rightarrow> error + nat"
  svc_deleteIndex :: "call list \<Rightarrow> string \<Rightarrow> error option"
  svc_listIndexes :: "call list \<Rightarrow> error + string list"
  svc_uploadDocuments :: "call list \<Rightarrow> string \<Rightarrow> document list \<Rightarrow> error option"
  svc_mergeDocuments :: "call list \<Rightarrow> string \<Rightarrow> document list \<Rightarrow> error option"
  svc_deleteDocuments :: "call list \<Rightarrow> string \<Rightarrow> string list \<Rightarrow> error option"
  svc_search :: "call list \<Rightarrow> string \<Rightarrow> search_options \<Rightarrow> error + hit list"

text \<open>
  The state that the operations read and change: the calls issued so far, the keys of
  the adapter's \<open>searchClients\<close> cache, and how many UUIDs the process has drawn.
\<close>

record world =
  calls :: "call list"
  searchClients :: "string set"
  uuids_drawn :: nat

definition issue :: "call \<Rightarrow> world \<Rightarrow> world" where
  "issue c w = w\<lparr> calls := calls w @ [c] \<rparr>"

definition getSearchClient :: "string \<Rightarrow> world \<Rightarrow> world" where
  "getSearchClient indexName w = w\<lparr> searchClients := insert indexName (searchClients w) \<rparr>"

subsection \<open>Parameters and results of the operations (\<open>@mastra/core/vector\<close>)\<close>

datatype metric = Cosine | Euclidean | Dotproduct

record CreateIndexParams =
  ci_indexName :: string
  ci_dimension :: int
  ci_metric :: "metric option"

record IndexStats =
  stats_dimension :: int
  stats_count :: nat
  stats_metric :: metric

record AzureSearchFilter =
  odata :: "string option"

record UpsertVectorParams =
  up_indexName :: string
  up_vectors :: "real list list"
  up_metadata :: "(string \<times> jsvalue) list list option"
  up_ids :: "string list option"
  up_deleteFilter :: "jsvalue option"

record QueryVectorParams =
  qp_indexName :: string
  qp_queryVector :: "real list"
  qp_topK :: "int option"
  qp_filter :: "AzureSearchFilter option"
  qp_includeVector :: "bool option"

record QueryResult =
  qr_id :: string
  qr_score :: real
  qr_metadata :: jsvalue
  qr_vector :: jsvalue

record vector_update =
  upd_vector :: "real list option"
  upd_metadata :: "(string \<times> jsvalue) list option"

record UpdateVectorParams =
  uv_indexName :: string
  uv_id :: "string option"
  uv_filter :: "AzureSearchFilter option"
  uv_update :: vector_update

record DeleteVectorsParams =
  dv_indexName :: string
  dv_ids :: "string list option"
  dv_filter :: "AzureSearchFilter option"

subsection \<open>\<open>mapMetric\<close>, \<open>createIndex\<close>, \<open>describeIndex\<close>\<close>

fun mapMetric :: "metric option \<Rightarrow> string" where
  "mapMetric (Some Euclidean) = ''euclidean''"
| "mapMetric (Some Dotproduct) = ''dotProduct''"
| "mapMetric (Some Cosine) = ''cosine''"
| "mapMetric None = ''cosine''"

text \<open>The index object that \<open>createIndex\<close> builds; \<open>metric\<close> defaults to cosine.\<close>

definition build_index :: "CreateIndexParams \<Rightarrow> search_index" where
  "build_index params =
     (let metric = (case ci_metric params of None \<Rightarrow> Cosine | Some m \<Rightarrow> m);
          vectorSearch =
            \<lparr> vs_algorithms = Some
                [\<lparr> alg_name = ''hnsw-algorithm'', alg_kind = ''hnsw'',
                   alg_parameters = Some
                     \<lparr> hp_metric = Some (mapMetric (Some metric)), hp_m = 4,
                       hp_efConstruction = 400, hp_efSearch = 500 \<rparr> \<rparr>],
              vs_profiles = Some
                [\<lparr> prof_name = ''vector-profile'',
                   prof_algorithmConfigurationName = ''hnsw-algorithm'' \<rparr>] \<rparr>;
          fields =
            [\<lparr> field_name = ''id'', field_type = ''Edm.String'', field_key = Some True,
               field_filterable = Some True, field_searchable = None,
               field_vectorSearchDimensions = Absent, field_vectorSearchProfileName = None \<rparr>,
             \<lparr> field_name = ''vector'', field_type = ''Collection(Edm.Single)'',
               field_key = None, field_filterable = None, field_searchable = Some True,
               field_vectorSearchDimensions = Value (ci_dimension params),
               field_vectorSearchProfileName = Some ''vector-profile'' \<rparr>,
             \<lparr> field_name = ''metadata'', field_type = ''Edm.String'', field_key = None,
               field_filterable = Some False, field_searchable = Some False,
               field_vectorSearchDimensions = Absent, field_vectorSearchProfileName = None \<rparr>,
             \<lparr> field_name = ''text'', field_type = ''Edm.String'', field_key = None,
               field_filterable = Some False, field_searchable = Some True,
               field_vectorSearchDimensions = Absent, field_vectorSearchProfileName = None \<rparr>]
      in \<lparr> idx_name = ci_indexName params, idx_fields = Some fields,
           idx_vectorSearch = Some vectorSearch \<rparr>)"

definition createIndex :: "service \<Rightarrow> world \<Rightarrow> CreateIndexParams \<Rightarrow> (error + unit) \<times> world" where
  "createIndex svc w params =
     (let index = build_index params;
          w1 = issue (CreateOrUpdateIndex index) w
      in case svc_createOrUpdateIndex svc (calls w) index of
           Some e \<Rightarrow> (Inl e, w1)
         | None \<Rightarrow>
             (Inr (), w1\<lparr> searchClients := searchClients w1 - {ci_indexName params} \<rparr>))"

text \<open>The loop over \<open>index.fields\<close>: the first field named \<open>vector\<close> that has the
  property decides, and ends the loop.\<close>

fun find_dimension :: "search_field list \<Rightarrow> int" where
  "find_dimension [] = 0"
| "find_dimension (field # rest) =
     (if field_name field = ''vector'' \<and> field_vectorSearchDimensions field \<noteq> Absent
      then (case field_vectorSearchDimensions field of Value d \<Rightarrow> d | _ \<Rightarrow> 0)
      else find_dimension rest)"

definition read_metric :: "search_index \<Rightarrow> metric" where
  "read_metric index =
     (case idx_vectorSearch index of
        None \<Rightarrow> Cosine
      | Some vs \<Rightarrow>
          (case vs_algorithms vs of
             None \<Rightarrow> Cosine
           | Some [] \<Rightarrow> Cosine
           | Some (algorithm # others) \<Rightarrow>
               (if alg_kind algorithm = ''hnsw'' then
                  (case alg_parameters algorithm of
                     None \<Rightarrow> Cosine
                   | Some parameters \<Rightarrow>
                       (if hp_metric parameters = Some ''euclidean'' then Euclidean
                        else if hp_metric parameters = Some ''dotProduct'' then Dotproduct
                        else Cosine))
                else Cosine)))"

definition describeIndex :: "service \<Rightarrow> world \<Rightarrow> string \<Rightarrow> (error + IndexStats) \<times> world" where
  "describeIndex svc w indexName =
     (let w1 = issue (GetIndex indexName) w in
      case svc_getIndex svc (calls w) indexName of
        Inl e \<Rightarrow> (Inl e, w1)
      | Inr index \<Rightarrow>
          (let w2 = getSearchClient indexName w1;
               w3 = issue (GetDocumentsCount indexName) w2
           in case svc_getDocumentsCount svc (calls w2) indexName of
                Inl e \<Rightarrow> (Inl e, w3)
              | Inr countResult \<Rightarrow>
                  (Inr \<lparr> stats_dimension =
                           find_dimension (case idx_fields index of None \<Rightarrow> [] | Some fs \<Rightarrow> fs),
                         stats_count = countResult,
                         stats_metric = read_metric index \<rparr>, w3)))"

definition listIndexes :: "service \<Rightarrow> world \<Rightarrow> (error + string list) \<times> world" where
  "listIndexes svc w = (svc_listIndexes svc (calls w), issue ListIndexes w)"

definition deleteIndex :: "service \<Rightarrow> world \<Rightarrow> string \<Rightarrow> (error + unit) \<times> world" where
  "deleteIndex svc w indexName =
     (let w1 = issue (DeleteIndex indexName) w in
      case svc_deleteIndex svc (calls w) indexName of
        Some e \<Rightarrow> (Inl e, w1)
      | None \<Rightarrow> (Inr (), w1\<lparr> searchClients := searchClients w1 - {indexName} \<rparr>))"

subsection \<open>\<open>query\<close>\<close>

text \<open>
  The \<open>try\<close> block: the metadata field is parsed when it is a non-empty string; a
  SyntaxError of \<open>JSON.parse\<close> is caught and leaves the empty object.
\<close>

definition parse_metadata :: "platform \<Rightarrow> jsvalue \<Rightarrow> jsvalue" where
  "parse_metadata pf m =
     (case m of
        JStr s \<Rightarrow>
          (if s \<noteq> [] then (case json_parse pf s of None \<Rightarrow> JObj [] | Some v \<Rightarrow> v)
           else JObj [])
      | _ \<Rightarrow> JObj [])"

text \<open>
  \<open>metadata.text = doc.text\<close>, outside the \<open>try\<close> block. On an object the key is set
  (in place when it is there, at the end otherwise). An array takes the property
  without a change of its elements. On \<open>null\<close>, \<open>undefined\<close> and, in strict mode, on
  a primitive value the assignment raises TypeError.
\<close>

fun set_text :: "jsvalue \<Rightarrow> jsvalue \<Rightarrow> error + jsvalue" where
  "set_text (JObj kvs) v = Inr (JObj (AList.update ''text'' v kvs))"
| "set_text (JArr xs) v = Inr (JArr xs)"
| "set_text other v = Inl TypeError"

definition convert_hit :: "platform \<Rightarrow> bool \<Rightarrow> hit \<Rightarrow> error + QueryResult" where
  "convert_hit pf includeVector result =
     (let doc = hit_document result;
          metadata = parse_metadata pf (sd_metadata doc)
      in case (if truthy (sd_text doc) then set_text metadata (sd_text doc) else Inr metadata) of
           Inl e \<Rightarrow> Inl e
         | Inr metadata' \<Rightarrow>
             Inr \<lparr> qr_id = sd_id doc,
                   qr_score = (case hit_score result of None \<Rightarrow> 0 | Some sc \<Rightarrow> sc),
                   qr_metadata = metadata',
                   qr_vector = (if includeVector then sd_vector doc else JUndefined) \<rparr>)"

text \<open>\<open>for await (const result of results.results) { ... queryResults.push(...) }\<close>\<close>

fun collect_results :: "platform \<Rightarrow> bool \<Rightarrow> hit list \<Rightarrow> QueryResult list \<Rightarrow> error + QueryResult list" where
  "collect_results pf includeVector [] queryResults = Inr queryResults"
| "collect_results pf includeVector (result # rest) queryResults =
     (case convert_hit pf includeVector result of
        Inl e \<Rightarrow> Inl e
      | Inr r \<Rightarrow> collect_results pf includeVector rest (queryResults @ [r]))"

definition odata_filter :: "AzureSearchFilter option \<Rightarrow> string option" where
  "odata_filter flt =
     (case flt of
        None \<Rightarrow> None
      | Some f \<Rightarrow> (case odata f of None \<Rightarrow> None | Some s \<Rightarrow> if s \<noteq> [] then Some s else None))"

text \<open>The options that \<open>query\<close> passes to \<open>search\<close>; \<open>topK\<close> defaults to 10 and
  \<open>includeVector\<close> to false.\<close>

definition search_options_of :: "QueryVectorParams \<Rightarrow> search_options" where
  "search_options_of params =
     (let topK = (case qp_topK params of None \<Rightarrow> 10 | Some k \<Rightarrow> k);
          includeVector = (case qp_includeVector params of None \<Rightarrow> False | Some b \<Rightarrow> b)
      in \<lparr> so_vector = qp_queryVector params,
           so_kNearestNeighborsCount = topK,
           so_filter = odata_filter (qp_filter params),
           so_top = topK,
           so_select = (if includeVector then [''id'', ''metadata'', ''text'', ''vector'']
                        else [''id'', ''metadata'', ''text'']) \<rparr>)"

definition query :: "platform \<Rightarrow> service \<Rightarrow> world \<Rightarrow> QueryVectorParams \<Rightarrow> (error + QueryResult list) \<times> world" where
  "query pf svc w params =
     (let indexName = qp_indexName params;
          includeVector = (case qp_includeVector params of None \<Rightarrow> False | Some b \<Rightarrow> b);
          w1 = getSearchClient indexName w;
          options = search_options_of params;
          w2 = issue (Search indexName options) w1
      in case svc_search svc (calls w1) indexName options of
           Inl e \<Rightarrow> (Inl e, w2)
         | Inr hits \<Rightarrow> (collect_results pf includeVector hits [], w2))"

subsection \<open>\<open>deleteVector\<close>, \<open>deleteVectors\<close>\<close>

definition batchSize :: nat where
  "batchSize = 1000"

text \<open>\<open>xs.slice(a, b)\<close> for \<open>0 \<le> a \<le> b\<close>.\<close>

definition slice :: "'a list \<Rightarrow> nat \<Rightarrow> nat \<Rightarrow> 'a list" where
  "slice xs a b = take (b - a) (drop a xs)"

definition deleteVector :: "service \<Rightarrow> world \<Rightarrow> string \<Rightarrow> string \<Rightarrow> (error + unit) \<times> world" where
  "deleteVector svc w indexName vid =
     (let w1 = getSearchClient indexName w;
          w2 = issue (DeleteDocuments indexName [vid]) w1
      in case svc_deleteDocuments svc (calls w1) indexName [vid] of
           Some e \<Rightarrow> (Inl e, w2)
         | None \<Rightarrow> (Inr (), w2))"

text \<open>The loop of the id path: \<open>for (let i = 0; i < ids.length; i += batchSize)\<close>.\<close>

function delete_batches :: "service \<Rightarrow> string \<Rightarrow> string list \<Rightarrow> nat \<Rightarrow> world \<Rightarrow> (error + unit) \<times> world" where
  "delete_batches svc indexName ids i w =
     (if i < length ids then
        (case svc_deleteDocuments svc (calls w) indexName (slice ids i (i + batchSize)) of
           Some e \<Rightarrow> (Inl e, issue (DeleteDocuments indexName (slice ids i (i + batchSize))) w)
         | None \<Rightarrow>
             delete_batches svc indexName ids (i + batchSize)
               (issue (DeleteDocuments indexName (slice ids i (i + batchSize))) w))
      else (Inr (), w))"
  by pat_completeness auto
termination
  by (relation "measure (\<lambda>(svc, indexName, ids, i, w). length ids - i)")
     (auto simp: batchSize_def)

declare delete_batches.simps [simp del]

text \<open>The query that resolves a filter to ids, as both filter paths write it.\<close>

definition filter_query :: "string \<Rightarrow> AzureSearchFilter \<Rightarrow> QueryVectorParams" where
  "filter_query indexName flt =
     \<lparr> qp_indexName = indexName,
       qp_queryVector = replicate 1536 0,
       qp_topK = Some 10000,
       qp_filter = Some flt,
       qp_includeVector = None \<rparr>"

definition deleteVectors :: "platform \<Rightarrow> service \<Rightarrow> world \<Rightarrow> DeleteVectorsParams \<Rightarrow> (error + unit) \<times> world" where
  "deleteVectors pf svc w params =
     (let indexName = dv_indexName params;
          w1 = getSearchClient indexName w
      in case dv_ids params of
           Some (vid # others) \<Rightarrow> delete_batches svc indexName (vid # others) 0 w1
         | _ \<Rightarrow>
             (case dv_filter params of
                Some flt \<Rightarrow>
                  (case query pf svc w1 (filter_query indexName flt) of
                     (Inl e, w2) \<Rightarrow> (Inl e, w2)
                   | (Inr results, w2) \<Rightarrow>
                       (if length results > 0 then
                          (let documents = map qr_id results;
                               w3 = issue (DeleteDocuments indexName documents) w2
                           in case svc_deleteDocuments svc (calls w2) indexName documents of
                                Some e \<Rightarrow> (Inl e, w3)
                              | None \<Rightarrow> (Inr (), w3))
                        else (Inr (), w2)))
              | None \<Rightarrow> (Inr (), w1)))"

subsection \<open>\<open>updateVector\<close>\<close>

text \<open>The document of the id path: the id, and the properties that the update has.\<close>

definition merge_by_id :: "platform \<Rightarrow> string \<Rightarrow> vector_update \<Rightarrow> document" where
  "merge_by_id pf vid upd =
     \<lparr> doc_id = vid,
       doc_vector = upd_vector upd,
       doc_metadata = (case upd_metadata upd of
                         None \<Rightarrow> None | Some m \<Rightarrow> Some (json_stringify pf (JObj m))),
       doc_text = (case upd_metadata upd of
                     None \<Rightarrow> None
                   | Some m \<Rightarrow> if truthy (get_prop m ''text'') then Some (get_prop m ''text'') else None) \<rparr>"

text \<open>The document of the filter path, for the id of one query result.\<close>

definition merge_by_filter :: "platform \<Rightarrow> vector_update \<Rightarrow> string \<Rightarrow> document" where
  "merge_by_filter pf upd vid =
     \<lparr> doc_id = vid,
       doc_vector = upd_vector upd,
       doc_metadata = (case upd_metadata upd of
                         None \<Rightarrow> None | Some m \<Rightarrow> Some (json_stringify pf (JObj m))),
       doc_text = (case upd_metadata upd of
                     None \<Rightarrow> None
                   | Some m \<Rightarrow> Some (coalesce (get_prop m ''text'') (JStr []))) \<rparr>"

definition updateVector :: "platform \<Rightarrow> service \<Rightarrow> world \<Rightarrow> UpdateVectorParams \<Rightarrow> (error + unit) \<times> world" where
  "updateVector pf svc w params =
     (let indexName = uv_indexName params; upd = uv_update params in
      if (case uv_id params of None \<Rightarrow> False | Some vid \<Rightarrow> vid \<noteq> []) then
        (let w1 = getSearchClient indexName w;
             document = merge_by_id pf (the (uv_id params)) upd;
             w2 = issue (MergeDocuments indexName [document]) w1
         in case svc_mergeDocuments svc (calls w1) indexName [document] of
              Some e \<Rightarrow> (Inl e, w2)
            | None \<Rightarrow> (Inr (), w2))
      else
        (case uv_filter params of
           Some flt \<Rightarrow>
             (case query pf svc w (filter_query indexName flt) of
                (Inl e, w1) \<Rightarrow> (Inl e, w1)
              | (Inr results, w1) \<Rightarrow>
                  (let w2 = getSearchClient indexName w1;
                       documents = map (\<lambda>r. merge_by_filter pf upd (qr_id r)) results
                   in if length documents > 0 then
                        (case svc_mergeDocuments svc (calls w2) indexName documents of
                           Some e \<Rightarrow> (Inl e, issue (MergeDocuments indexName documents) w2)
                         | None \<Rightarrow> (Inr (), issue (MergeDocuments indexName documents) w2))
                      else (Inr (), w2)))
         | None \<Rightarrow> (Inr (), w)))"

subsection \<open>\<open>upsert\<close>\<close>

text \<open>
  \<open>vectors.map((vector, i) => ...)\<close>: position \<open>i\<close> takes \<open>ids[i]\<close> when there is
  one and draws a UUID otherwise; \<open>metadata[i] ?? {}\<close>; \<open>text: meta.text ?? ""\<close>.
  The second component is the number of UUIDs drawn afterwards.
\<close>

fun prepare_documents ::
  "platform \<Rightarrow> string list option \<Rightarrow> (string \<times> jsvalue) list list \<Rightarrow> nat \<Rightarrow> real list list \<Rightarrow> nat
     \<Rightarrow> document list \<times> nat" where
  "prepare_documents pf ids metadata i [] n = ([], n)"
| "prepare_documents pf ids metadata i (vector # rest) n =
     (let explicit = (case ids of None \<Rightarrow> None
                      | Some xs \<Rightarrow> if i < length xs then Some (xs ! i) else None);
          vid = (case explicit of Some x \<Rightarrow> x | None \<Rightarrow> randomUUID pf n);
          n' = (case explicit of Some x \<Rightarrow> n | None \<Rightarrow> Suc n);
          meta = (if i < length metadata then metadata ! i else []);
          d = \<lparr> doc_id = vid,
                doc_vector = Some vector,
                doc_metadata = Some (json_stringify pf (JObj meta)),
                doc_text = Some (coalesce (get_prop meta ''text'') (JStr [])) \<rparr>;
          (ds, n'') = prepare_documents pf ids metadata (Suc i) rest n'
      in (d # ds, n''))"

text \<open>The upload loop: \<open>for (let i = 0; i < documents.length; i += batchSize)\<close>.
  A rejected upload ends the loop and the call; \<open>uploadedIds\<close> is a local variable
  and goes with it.\<close>

function upload_batches ::
  "service \<Rightarrow> string \<Rightarrow> document list \<Rightarrow> nat \<Rightarrow> string list \<Rightarrow> world \<Rightarrow> (error + string list) \<times> world" where
  "upload_batches svc indexName documents i uploadedIds w =
     (if i < length documents then
        (case svc_uploadDocuments svc (calls w) indexName (slice documents i (i + batchSize)) of
           Some e \<Rightarrow> (Inl e, issue (UploadDocuments indexName (slice documents i (i + batchSize))) w)
         | None \<Rightarrow>
             upload_batches svc indexName documents (i + batchSize)
               (uploadedIds @ map doc_id (slice documents i (i + batchSize)))
               (issue (UploadDocuments indexName (slice documents i (i + batchSize))) w))
      else (Inr uploadedIds, w))"
  by pat_completeness auto
termination
  by (relation "measure (\<lambda>(svc, indexName, documents, i, uploadedIds, w). length documents - i)")
     (auto simp: batchSize_def)

declare upload_batches.simps [simp del]

text \<open>\<open>if (deleteFilter) await this.deleteVectors({ indexName, filter: ... })\<close>\<close>

definition replace_step :: "platform \<Rightarrow> service \<Rightarrow> world \<Rightarrow> UpsertVectorParams \<Rightarrow> (error + unit) \<times> world" where
  "replace_step pf svc w params =
     (case up_deleteFilter params of
        None \<Rightarrow> (Inr (), w)
      | Some deleteFilter \<Rightarrow>
          if truthy deleteFilter then
            deleteVectors pf svc w
              \<lparr> dv_indexName = up_indexName params, dv_ids = None,
                dv_filter = Some \<lparr> odata = Some (js_String pf deleteFilter) \<rparr> \<rparr>
          else (Inr (), w))"

definition upsert :: "platform \<Rightarrow> service \<Rightarrow> world \<Rightarrow> UpsertVectorParams \<Rightarrow> (error + string list) \<times> world" where
  "upsert pf svc w params =
     (let indexName = up_indexName params;
          metadata = (case up_metadata params of None \<Rightarrow> [] | Some ms \<Rightarrow> ms);
          w1 = getSearchClient indexName w
      in case replace_step pf svc w1 params of
           (Inl e, w2) \<Rightarrow> (Inl e, w2)
         | (Inr u, w2) \<Rightarrow>
             (case prepare_documents pf (up_ids params) metadata 0 (up_vectors params) (uuids_drawn w2) of
                (documents, n) \<Rightarrow>
                  upload_batches svc indexName documents 0 [] (w2\<lparr> uuids_drawn := n \<rparr>)))"

subsection \<open>Vocabulary of the adapter's properties\<close>

text \<open>The documents uploaded to an index by a sequence of calls, in order.\<close>

fun uploaded :: "call list \<Rightarrow> string \<Rightarrow> document list" where
  "uploaded [] indexName = []"
| "uploaded (UploadDocuments n ds # cs) indexName =
     (if n = indexName then ds else []) @ uploaded cs indexName"
| "uploaded (c # cs) indexName = uploaded cs indexName"

text \<open>The index last created under a name by a sequence of calls.\<close>

fun last_created :: "call list \<Rightarrow> string \<Rightarrow> search_index option" where
  "last_created [] indexName = None"
| "last_created (CreateOrUpdateIndex index # cs) indexName =
     (case last_created cs indexName of
        Some later \<Rightarrow> Some later
      | None \<Rightarrow> if idx_name index = indexName then Some index else None)"
| "last_created (c # cs) indexName = last_created cs indexName"

text \<open>
  An uploaded document as a service that stores the fields as they are sent returns
  it to a search that selects \<open>id\<close>, \<open>metadata\<close> and \<open>text\<close>.
\<close>

definition stored_form :: "document \<Rightarrow> search_doc" where
  "stored_form d =
     \<lparr> sd_id = doc_id d,
       sd_metadata = (case doc_metadata d of None \<Rightarrow> JUndefined | Some s \<Rightarrow> JStr s),
       sd_text = (case doc_text d of None \<Rightarrow> JUndefined | Some v \<Rightarrow> v),
       sd_vector = JUndefined \<rparr>"

text \<open>A returned document holds the id, metadata and text of an uploaded document
  as they were sent (its vector may or may not have been selected).\<close>

definition holds_fields_of :: "search_doc \<Rightarrow> document \<Rightarrow> bool" where
  "holds_fields_of sd d \<longleftrightarrow>
     sd_id sd = sd_id (stored_form d) \<and>
     sd_metadata sd = sd_metadata (stored_form d) \<and>
     sd_text sd = sd_text (stored_form d)"

text \<open>The batches of the upload loop: consecutive runs of \<open>batchSize\<close> documents.\<close>

function batches :: "'a list \<Rightarrow> 'a list list" where
  "batches xs = (if xs = [] then [] else take batchSize xs # batches (drop batchSize xs))"
  by pat_completeness auto
termination
  by (relation "measure length") (auto simp: batchSize_def)

declare batches.simps [simp del]

text \<open>Which path an update or a delete takes: the tests of the two \<open>if\<close>s.\<close>

definition update_by_id :: "UpdateVectorParams \<Rightarrow> bool" where
  "update_by_id p \<longleftrightarrow> (case uv_id p of None \<Rightarrow> False | Some vid \<Rightarrow> vid \<noteq> [])"

definition delete_by_ids :: "DeleteVectorsParams \<Rightarrow> bool" where
  "delete_by_ids p \<longleftrightarrow> (case dv_ids p of None \<Rightarrow> False | Some ids \<Rightarrow> ids \<noteq> [])"

text \<open>What \<open>query\<close> returns, and the ids that a filter resolves to: the ids of the
  results of the resolving query, none when that query fails.\<close>

definition query_answer :: "platform \<Rightarrow> service \<Rightarrow> world \<Rightarrow> QueryVectorParams \<Rightarrow> error + QueryResult list" where
  "query_answer pf svc w q =
     (case svc_search svc (calls w) (qp_indexName q) (search_options_of q) of
        Inl e \<Rightarrow> Inl e
      | Inr hits \<Rightarrow>
          collect_results pf (case qp_includeVector q of None \<Rightarrow> False | Some b \<Rightarrow> b) hits [])"

definition resolved_ids :: "platform \<Rightarrow> service \<Rightarrow> world \<Rightarrow> string \<Rightarrow> AzureSearchFilter \<Rightarrow> string list" where
  "resolved_ids pf svc w indexName flt =
     (case query_answer pf svc w (filter_query indexName flt) of
        Inl e \<Rightarrow> []
      | Inr rs \<Rightarrow> map qr_id rs)"

text \<open>
  The documents that the calls between two states uploaded to an index; the metadata
  object of position \<open>i\<close> of an upsert (\<open>metadata[i] ?? {}\<close>, with \<open>metadata\<close>
  defaulting to the empty array); the ids that a caller of \<open>upsert\<close> has in hand
  afterwards; and the sizes of the uploads among a sequence of calls.
\<close>

definition new_uploads :: "world \<Rightarrow> world \<Rightarrow> string \<Rightarrow> document list" where
  "new_uploads w w' indexName =
     drop (length (uploaded (calls w) indexName)) (uploaded (calls w') indexName)"

definition meta_at :: "(string \<times> jsvalue) list list option \<Rightarrow> nat \<Rightarrow> (string \<times> jsvalue) list" where
  "meta_at metadata i =
     (case metadata of None \<Rightarrow> [] | Some ms \<Rightarrow> if i < length ms then ms ! i else [])"

definition returned_ids :: "error + string list \<Rightarrow> string list option" where
  "returned_ids r = (case r of Inl e \<Rightarrow> None | Inr ids \<Rightarrow> Some ids)"

fun upload_sizes :: "call list \<Rightarrow> nat list" where
  "upload_sizes [] = []"
| "upload_sizes (UploadDocuments n ds # cs) = length ds # upload_sizes cs"
| "upload_sizes (c # cs) = upload_sizes cs"

text \<open>
  Fixtures. \<open>echo_service\<close> accepts every call and answers from the calls before:
  the schema last created, the number of documents uploaded, and, to a search, the
  documents uploaded to the index (at most \<open>top\<close> of them). \<open>flaky_service\<close> is the
  same but rejects every upload that is not the first call. \<open>toy_platform\<close> has a
  JSON codec for two objects and UUIDs that never repeat.
\<close>

definition echo_service :: service where
  "echo_service =
     \<lparr> svc_createOrUpdateIndex = (\<lambda>h index. None),
       svc_getIndex = (\<lambda>h n. case last_created h n of
                                None \<Rightarrow> Inl (ServiceError ''index not found'')
                              | Some index \<Rightarrow> Inr index),
       svc_getDocumentsCount = (\<lambda>h n. Inr (length (uploaded h n))),
       svc_deleteIndex = (\<lambda>h n. None),
       svc_listIndexes = (\<lambda>h. Inr []),
       svc_uploadDocuments = (\<lambda>h n ds. None),
       svc_mergeDocuments = (\<lambda>h n ds. None),
       svc_deleteDocuments = (\<lambda>h n ids. None),
       svc_search = (\<lambda>h n options.
          Inr (map (\<lambda>d. \<lparr> hit_document = stored_form d, hit_score = Some 1 \<rparr>)
                 (take (nat (so_top options)) (uploaded h n)))) \<rparr>"

definition flaky_service :: service where
  "flaky_service =
     echo_service\<lparr> svc_uploadDocuments :=
       (\<lambda>h n ds. if h = [] then None else Some (ServiceError ''service unavailable'')) \<rparr>"

definition hello_metadata :: "(string \<times> jsvalue) list" where
  "hello_metadata = [(''text'', JStr ''hello''), (''source'', JStr ''a.pdf'')]"

definition toy_platform :: platform where
  "toy_platform =
     \<lparr> json_stringify = (\<lambda>v. if v = JObj hello_metadata then ''{hello}'' else ''{}''),
       json_parse = (\<lambda>s. if s = ''{hello}'' then Some (JObj hello_metadata)
                          else if s = ''{}'' then Some (JObj []) else None),
       js_String = (\<lambda>v. ''[object Object]''),
       randomUUID = (\<lambda>n. ''uuid-'' @ replicate n (CHR ''x'')) \<rparr>"

definition demo_index :: CreateIndexParams where
  "demo_index = \<lparr> ci_indexName = ''documents'', ci_dimension = 3072, ci_metric = Some Dotproduct \<rparr>"

definition untargeted_update :: UpdateVectorParams where
  "untargeted_update =
     \<lparr> uv_indexName = ''documents'', uv_id = None, uv_filter = None,
       uv_update = \<lparr> upd_vector = Some [1], upd_metadata = None \<rparr> \<rparr>"

definition doubly_targeted_update :: UpdateVectorParams where
  "doubly_targeted_update =
     \<lparr> uv_indexName = ''documents'', uv_id = Some ''a'',
       uv_filter = Some \<lparr> odata = Some ''year eq 2024'' \<rparr>,
       uv_update = \<lparr> upd_vector = Some [1], upd_metadata = None \<rparr> \<rparr>"

definition untargeted_delete :: DeleteVectorsParams where
  "untargeted_delete = \<lparr> dv_indexName = ''documents'', dv_ids = None, dv_filter = None \<rparr>"

definition doubly_targeted_delete :: DeleteVectorsParams where
  "doubly_targeted_delete =
     \<lparr> dv_indexName = ''documents'', dv_ids = Some [''a''],
       dv_filter = Some \<lparr> odata = Some ''year eq 2024'' \<rparr> \<rparr>"

definition doc_a :: document where
  "doc_a = \<lparr> doc_id = ''a'', doc_vector = Some [1], doc_metadata = Some ''{}'',
             doc_text = Some (JStr []) \<rparr>"

definition doc_b :: document where
  "doc_b = \<lparr> doc_id = ''b'', doc_vector = Some [2], doc_metadata = Some ''{}'',
             doc_text = Some (JStr []) \<rparr>"

definition world_ab :: world where
  "world_ab = \<lparr> calls = [UploadDocuments ''documents'' [doc_a, doc_b]],
                searchClients = {''documents''}, uuids_drawn = 0 \<rparr>"

definition year_filter :: AzureSearchFilter where
  "year_filter = \<lparr> odata = Some ''year eq 2024'' \<rparr>"

definition filter_update :: UpdateVectorParams where
  "filter_update =
     \<lparr> uv_indexName = ''documents'', uv_id = None, uv_filter = Some year_filter,
       uv_update = \<lparr> upd_vector = Some [3], upd_metadata = None \<rparr> \<rparr>"

definition filter_delete :: DeleteVectorsParams where
  "filter_delete = \<lparr> dv_indexName = ''documents'', dv_ids = None, dv_filter = Some year_filter \<rparr>"

definition doc_broken :: document where
  "doc_broken = \<lparr> doc_id = ''c'', doc_vector = Some [3], doc_metadata = Some ''{oops'',
                  doc_text = Some (JStr ''kept'') \<rparr>"

definition world_broken :: world where
  "world_broken = \<lparr> calls = [UploadDocuments ''documents'' [doc_a, doc_broken, doc_b]],
                    searchClients = {''documents''}, uuids_drawn = 0 \<rparr>"

definition plain_query :: QueryVectorParams where
  "plain_query = \<lparr> qp_indexName = ''documents'', qp_queryVector = [1], qp_topK = None,
                   qp_filter = None, qp_includeVector = None \<rparr>"

definition as_hit :: "document \<Rightarrow> hit" where
  "as_hit d = \<lparr> hit_document = stored_form d, hit_score = Some 1 \<rparr>"

definition small_upsert :: UpsertVectorParams where
  "small_upsert =
     \<lparr> up_indexName = ''documents'', up_vectors = [[1], [2]],
       up_metadata = Some [hello_metadata], up_ids = None, up_deleteFilter = None \<rparr>"

definition explicit_upsert :: UpsertVectorParams where
  "explicit_upsert =
     \<lparr> up_indexName = ''documents'', up_vectors = [[1], [2]],
       up_metadata = Some [hello_metadata], up_ids = Some [''x'', ''y''],
       up_deleteFilter = None \<rparr>"

definition big_upsert :: UpsertVectorParams where
  "big_upsert =
     \<lparr> up_indexName = ''documents'', up_vectors = replicate 1001 [0],
       up_metadata = None, up_ids = None, up_deleteFilter = None \<rparr>"

definition doc_hello :: document where
  "doc_hello = \<lparr> doc_id = ''uuid-'', doc_vector = Some [1], doc_metadata = Some ''{hello}'',
                 doc_text = Some (JStr ''hello'') \<rparr>"

definition doc_plain :: document where
  "doc_plain = \<lparr> doc_id = ''uuid-x'', doc_vector = Some [2], doc_metadata = Some ''{}'',
                 doc_text = Some (JStr []) \<rparr>"

definition world_small :: world where
  "world_small = \<lparr> calls = [UploadDocuments ''documents'' [doc_hello, doc_plain]],
                   searchClients = {''documents''}, uuids_drawn = 2 \<rparr>"

definition big_documents :: "document list" where
  "big_documents = fst (prepare_documents toy_platform None [] 0 (replicate 1001 [0]) 0)"

definition world0 :: world where
  "world0 = \<lparr> calls = [], searchClients = {}, uuids_drawn = 0 \<rparr>"

subsection \<open>Basic facts\<close>

lemma calls_issue [simp]: "calls (issue c w) = calls w @ [c]"
  by (simp add: issue_def)

lemma calls_getSearchClient [simp]: "calls (getSearchClient n w) = calls w"
  by (simp add: getSearchClient_def)

lemma query_eq:
  "query pf svc w q =
     (query_answer pf svc w q,
      issue (Search (qp_indexName q) (search_options_of q)) (getSearchClient (qp_indexName q) w))"
  by (simp add: query_def query_answer_def Let_def split: sum.splits)

lemma query_answer_getSearchClient [simp]:
  "query_answer pf svc (getSearchClient n w) q = query_answer pf svc w q"
  by (simp add: query_answer_def)

lemma filter_options:
  "search_options_of (filter_query n flt) =
     \<lparr> so_vector = replicate 1536 0, so_kNearestNeighborsCount = 10000,
       so_filter = odata_filter (Some flt), so_top = 10000,
       so_select = [''id'', ''metadata'', ''text''] \<rparr>"
  by (simp add: search_options_of_def filter_query_def)

subsection \<open>Index schema round trip\<close>

lemma find_dimension_build_index:
  "find_dimension (case idx_fields (build_index S) of None \<Rightarrow> [] | Some fs \<Rightarrow> fs) = ci_dimension S"
  by (simp add: build_index_def Let_def)

lemma read_metric_build_index:
  "read_metric (build_index S) = (case ci_metric S of None \<Rightarrow> Cosine | Some m \<Rightarrow> m)"
  by (cases "ci_metric S"; cases "the (ci_metric S)")
     (simp_all add: build_index_def read_metric_def Let_def)

text \<open>
  \<^bold>\<open>Claim C9.\<close> For every index specification (any name, any dimension, each of the
  three metrics or none, which means cosine): when \<open>createIndex\<close> succeeds and the
  service then answers \<open>getIndex\<close> with the schema that the last call created,
  \<open>describeIndex\<close> returns the dimension and the metric of the specification (and
  the count that the service reports).
\<close>

theorem create_then_describe:
  assumes created: "createIndex svc w S = (Inr (), w')"
    and stored: "last (calls w') = CreateOrUpdateIndex index"
                "svc_getIndex svc (calls w') (ci_indexName S) = Inr index"
    and counted: "svc_getDocumentsCount svc (calls w' @ [GetIndex (ci_indexName S)]) (ci_indexName S) = Inr n"
  shows "fst (describeIndex svc w' (ci_indexName S)) =
           Inr \<lparr> stats_dimension = ci_dimension S, stats_count = n,
                 stats_metric = (case ci_metric S of None \<Rightarrow> Cosine | Some m \<Rightarrow> m) \<rparr>"
proof -
  from created have "calls w' = calls w @ [CreateOrUpdateIndex (build_index S)]"
    by (auto simp: createIndex_def Let_def split: option.splits)
  with stored(1) have "index = build_index S" by simp
  with stored(2) counted show ?thesis
    by (simp add: describeIndex_def Let_def find_dimension_build_index read_metric_build_index)
qed

theorem create_then_describe_witness:
  "fst (createIndex echo_service world0 demo_index) = Inr () \<and>
   fst (describeIndex echo_service (snd (createIndex echo_service world0 demo_index)) ''documents'') =
      Inr \<lparr> stats_dimension = 3072, stats_count = 0, stats_metric = Dotproduct \<rparr>"
proof -
  let ?w' = "snd (createIndex echo_service world0 demo_index)"
  have c1: "fst (createIndex echo_service world0 demo_index) = Inr ()"
    by (simp add: createIndex_def echo_service_def Let_def)
  then have c: "createIndex echo_service world0 demo_index = (Inr (), ?w')"
    by (simp add: prod_eq_iff)
  have cs: "calls ?w' = [CreateOrUpdateIndex (build_index demo_index)]"
    by (simp add: createIndex_def echo_service_def Let_def world0_def)
  have l: "last (calls ?w') = CreateOrUpdateIndex (build_index demo_index)"
    by (simp add: cs)
  have g: "svc_getIndex echo_service (calls ?w') (ci_indexName demo_index) = Inr (build_index demo_index)"
    unfolding cs by (simp add: echo_service_def build_index_def demo_index_def Let_def)
  have n: "svc_getDocumentsCount echo_service (calls ?w' @ [GetIndex (ci_indexName demo_index)])
             (ci_indexName demo_index) = Inr 0"
    unfolding cs by (simp add: echo_service_def)
  from create_then_describe[OF c l g n] c1 show ?thesis
    by (simp add: demo_index_def)
qed

subsection \<open>Dispatch on id and filter\<close>

text \<open>
  \<^bold>\<open>Claim C6\<close> says that an update or a delete with neither an id nor a filter, or with
  both, fails with InvalidArgument. The code has no such check: with neither, both
  operations return normally and issue no call; with both, the id path runs.
\<close>

theorem dispatch_counterexample:
  "updateVector toy_platform echo_service world0 untargeted_update = (Inr (), world0) \<and>
   fst (deleteVectors toy_platform echo_service world0 untargeted_delete) = Inr () \<and>
   calls (snd (deleteVectors toy_platform echo_service world0 untargeted_delete)) = [] \<and>
   fst (updateVector toy_platform echo_service world0 doubly_targeted_update) = Inr () \<and>
   calls (snd (updateVector toy_platform echo_service world0 doubly_targeted_update)) =
     [MergeDocuments ''documents''
        [\<lparr> doc_id = ''a'', doc_vector = Some [1], doc_metadata = None, doc_text = None \<rparr>]]"
  by (simp add: updateVector_def deleteVectors_def untargeted_update_def untargeted_delete_def
        doubly_targeted_update_def merge_by_id_def echo_service_def world0_def Let_def)

text \<open>
  \<^bold>\<open>Claim C6, amended.\<close> When neither an id (ids) value nor a filter is supplied,
  \<open>updateVector\<close> and \<open>deleteVectors\<close> return normally without a call to the
  service; when both are supplied, the id path is taken and the filter is ignored
  (an empty id, or an empty list of ids, counts as not supplied).
\<close>

theorem dispatch_without_rejection:
  "(\<not> update_by_id p \<and> uv_filter p = None \<longrightarrow> updateVector pf svc w p = (Inr (), w)) \<and>
   (update_by_id p \<longrightarrow> updateVector pf svc w p = updateVector pf svc w (p\<lparr> uv_filter := None \<rparr>)) \<and>
   (\<not> delete_by_ids q \<and> dv_filter q = None \<longrightarrow>
        deleteVectors pf svc w q = (Inr (), getSearchClient (dv_indexName q) w)) \<and>
   (delete_by_ids q \<longrightarrow> deleteVectors pf svc w q = deleteVectors pf svc w (q\<lparr> dv_filter := None \<rparr>))"
  by (auto simp: updateVector_def deleteVectors_def update_by_id_def delete_by_ids_def Let_def
           split: option.splits list.splits)

theorem dispatch_without_rejection_witness:
  "\<not> update_by_id untargeted_update \<and> uv_filter untargeted_update = None \<and>
   updateVector toy_platform echo_service world0 untargeted_update = (Inr (), world0) \<and>
   \<not> delete_by_ids untargeted_delete \<and> dv_filter untargeted_delete = None \<and>
   deleteVectors toy_platform echo_service world0 untargeted_delete =
     (Inr (), getSearchClient ''documents'' world0) \<and>
   update_by_id doubly_targeted_update \<and>
   updateVector toy_platform echo_service world0 doubly_targeted_update =
     updateVector toy_platform echo_service world0 (doubly_targeted_update\<lparr> uv_filter := None \<rparr>) \<and>
   delete_by_ids doubly_targeted_delete \<and>
   deleteVectors toy_platform echo_service world0 doubly_targeted_delete =
     deleteVectors toy_platform echo_service world0 (doubly_targeted_delete\<lparr> dv_filter := None \<rparr>)"
proof -
  have a: "\<not> update_by_id untargeted_update \<and> uv_filter untargeted_update = None"
    by (simp add: update_by_id_def untargeted_update_def)
  have b: "\<not> delete_by_ids untargeted_delete \<and> dv_filter untargeted_delete = None"
    by (simp add: delete_by_ids_def untargeted_delete_def)
  have c: "update_by_id doubly_targeted_update"
    by (simp add: update_by_id_def doubly_targeted_update_def)
  have d: "delete_by_ids doubly_targeted_delete"
    by (simp add: delete_by_ids_def doubly_targeted_delete_def)
  have n: "dv_indexName untargeted_delete = ''documents''"
    by (simp add: untargeted_delete_def)
  from dispatch_without_rejection[of untargeted_update toy_platform echo_service world0 untargeted_delete]
       dispatch_without_rejection[of doubly_targeted_update toy_platform echo_service world0 doubly_targeted_delete]
       a b c d n
  show ?thesis by simp
qed


subsection \<open>The results of a query\<close>

lemma collect_results_acc:
  "collect_results pf iv hs acc =
     (case collect_results pf iv hs [] of Inl e \<Rightarrow> Inl e | Inr rs \<Rightarrow> Inr (acc @ rs))"
proof (induction hs arbitrary: acc)
  case Nil
  then show ?case by simp
next
  case (Cons h hs)
  show ?case
  proof (cases "convert_hit pf iv h")
    case (Inl e)
    then show ?thesis by simp
  next
    case (Inr r)
    then show ?thesis
      using Cons.IH[of "acc @ [r]"] Cons.IH[of "[r]"]
      by (simp split: sum.splits)
  qed
qed

lemma collect_results_Cons:
  "collect_results pf iv (h # hs) [] =
     (case convert_hit pf iv h of
        Inl e \<Rightarrow> Inl e
      | Inr r \<Rightarrow> (case collect_results pf iv hs [] of Inl e \<Rightarrow> Inl e | Inr rs \<Rightarrow> Inr (r # rs)))"
proof (cases "convert_hit pf iv h")
  case (Inl e)
  then show ?thesis by simp
next
  case (Inr r)
  then show ?thesis
    using collect_results_acc[of pf iv hs "[r]"] by (simp split: sum.splits)
qed



subsection \<open>Filter-driven update and delete\<close>

lemma updateVector_filter_calls:
  assumes "\<not> update_by_id p" "uv_filter p = Some flt"
  shows "calls (snd (updateVector pf svc w p)) =
     calls w @ Search (uv_indexName p) (search_options_of (filter_query (uv_indexName p) flt)) #
       (if resolved_ids pf svc w (uv_indexName p) flt = [] then []
        else [MergeDocuments (uv_indexName p)
                (map (merge_by_filter pf (uv_update p)) (resolved_ids pf svc w (uv_indexName p) flt))])"
proof -
  have n: "qp_indexName (filter_query (uv_indexName p) flt) = uv_indexName p"
    by (simp add: filter_query_def)
  from assms(1) have "(case uv_id p of None \<Rightarrow> False | Some vid \<Rightarrow> vid \<noteq> []) = False"
    by (simp add: update_by_id_def)
  then show ?thesis
    using assms(2)
    by (simp add: updateVector_def query_eq n resolved_ids_def Let_def comp_def
             split: sum.splits option.splits)
qed

lemma deleteVectors_filter_calls:
  assumes "\<not> delete_by_ids p" "dv_filter p = Some flt"
  shows "calls (snd (deleteVectors pf svc w p)) =
     calls w @ Search (dv_indexName p) (search_options_of (filter_query (dv_indexName p) flt)) #
       (if resolved_ids pf svc w (dv_indexName p) flt = [] then []
        else [DeleteDocuments (dv_indexName p) (resolved_ids pf svc w (dv_indexName p) flt)])"
proof -
  have n: "qp_indexName (filter_query (dv_indexName p) flt) = dv_indexName p"
    by (simp add: filter_query_def)
  from assms(1) consider "dv_ids p = None" | "dv_ids p = Some []"
    by (auto simp: delete_by_ids_def split: option.splits)
  then show ?thesis
    using assms(2)
    by cases (simp_all add: deleteVectors_def query_eq n resolved_ids_def Let_def
                 split: sum.splits option.splits)
qed


lemma resolved_ids_failed:
  "svc_search svc (calls w) indexName (search_options_of (filter_query indexName flt)) = Inl e
     \<Longrightarrow> resolved_ids pf svc w indexName flt = []"
  by (simp add: resolved_ids_def query_answer_def filter_query_def)


text \<open>
  \<^bold>\<open>Claim C10.\<close> The search that a filter-based \<open>updateVector\<close> or
  \<open>deleteVectors\<close> issues carries the vector of 1536 zeros, whatever the service,
  the state and the index are; its length differs from every dimension other than
  1536.
\<close>

theorem filter_query_vector:
  "(\<not> update_by_id p \<and> uv_filter p = Some flt \<longrightarrow>
      (\<exists>options rest.
         drop (length (calls w)) (calls (snd (updateVector pf svc w p))) =
           Search (uv_indexName p) options # rest \<and>
         so_vector options = replicate 1536 0 \<and> length (so_vector options) = 1536 \<and>
         (\<forall>dimension. dimension \<noteq> 1536 \<longrightarrow> int (length (so_vector options)) \<noteq> dimension))) \<and>
   (\<not> delete_by_ids q \<and> dv_filter q = Some flt \<longrightarrow>
      (\<exists>options rest.
         drop (length (calls w)) (calls (snd (deleteVectors pf svc w q))) =
           Search (dv_indexName q) options # rest \<and>
         so_vector options = replicate 1536 0 \<and> length (so_vector options) = 1536 \<and>
         (\<forall>dimension. dimension \<noteq> 1536 \<longrightarrow> int (length (so_vector options)) \<noteq> dimension)))"
  using updateVector_filter_calls[of p flt pf svc w] deleteVectors_filter_calls[of q flt pf svc w]
  by (simp add: filter_options)


lemma filter_query_sel [simp]:
  "qp_indexName (filter_query n flt) = n"
  "qp_includeVector (filter_query n flt) = None"
  by (simp_all add: filter_query_def)

lemma resolved_ab:
  "resolved_ids toy_platform echo_service world_ab ''documents'' year_filter = [''a'', ''b'']"
  by (simp add: resolved_ids_def query_answer_def filter_options world_ab_def echo_service_def
        doc_a_def doc_b_def stored_form_def convert_hit_def parse_metadata_def
        toy_platform_def Let_def)





theorem filter_query_vector_witness:
  "\<not> update_by_id filter_update \<and> uv_filter filter_update = Some year_filter \<and>
   \<not> delete_by_ids filter_delete \<and> dv_filter filter_delete = Some year_filter \<and>
   (\<exists>options rest.
      drop (length (calls world_ab))
        (calls (snd (updateVector toy_platform echo_service world_ab filter_update))) =
        Search ''documents'' options # rest \<and>
      so_vector options = replicate 1536 0 \<and>
      int (length (so_vector options)) \<noteq> ci_dimension demo_index) \<and>
   (\<exists>options rest.
      drop (length (calls world_ab))
        (calls (snd (deleteVectors toy_platform echo_service world_ab filter_delete))) =
        Search ''documents'' options # rest \<and>
      so_vector options = replicate 1536 0 \<and>
      int (length (so_vector options)) \<noteq> ci_dimension demo_index)"
proof -
  have a: "\<not> update_by_id filter_update \<and> uv_filter filter_update = Some year_filter"
    by (simp add: filter_update_def update_by_id_def)
  have b: "\<not> delete_by_ids filter_delete \<and> dv_filter filter_delete = Some year_filter"
    by (simp add: filter_delete_def delete_by_ids_def)
  have n: "uv_indexName filter_update = ''documents''" "dv_indexName filter_delete = ''documents''"
    by (simp_all add: filter_update_def filter_delete_def)
  note T = filter_query_vector[of filter_update year_filter world_ab toy_platform echo_service
               filter_delete]
  from T a obtain o1 r1 where
    u: "drop (length (calls world_ab))
          (calls (snd (updateVector toy_platform echo_service world_ab filter_update))) =
        Search ''documents'' o1 # r1" "so_vector o1 = replicate 1536 0"
    unfolding n by blast
  from T b obtain o2 r2 where
    v: "drop (length (calls world_ab))
          (calls (snd (deleteVectors toy_platform echo_service world_ab filter_delete))) =
        Search ''documents'' o2 # r2" "so_vector o2 = replicate 1536 0"
    unfolding n by blast
  have d1: "int (length (so_vector o1)) \<noteq> ci_dimension demo_index"
    by (simp add: u(2) demo_index_def)
  have d2: "int (length (so_vector o2)) \<noteq> ci_dimension demo_index"
    by (simp add: v(2) demo_index_def)
  show ?thesis
    using a b u v d1 d2 by blast
qed

subsection \<open>Malformed metadata\<close>


lemma collect_results_append:
  "collect_results pf iv (xs @ ys) [] =
     (case collect_results pf iv xs [] of
        Inl e \<Rightarrow> Inl e
      | Inr rs \<Rightarrow> (case collect_results pf iv ys [] of Inl e \<Rightarrow> Inl e | Inr qs \<Rightarrow> Inr (rs @ qs)))"
proof (induction xs)
  case Nil
  then show ?case by (simp split: sum.splits)
next
  case (Cons x xs)
  have "collect_results pf iv ((x # xs) @ ys) [] = collect_results pf iv (x # (xs @ ys)) []"
    by simp
  also have "\<dots> = (case convert_hit pf iv x of
        Inl e \<Rightarrow> Inl e
      | Inr r \<Rightarrow> (case collect_results pf iv (xs @ ys) [] of Inl e \<Rightarrow> Inl e | Inr rs \<Rightarrow> Inr (r # rs)))"
    by (rule collect_results_Cons)
  finally show ?case
    by (simp add: Cons.IH collect_results_Cons[of pf iv x xs] del: collect_results.simps
             split: sum.splits)
qed

lemma convert_hit_malformed:
  assumes "sd_metadata (hit_document h) = JStr s" "json_parse pf s = None"
  shows "convert_hit pf iv h =
     Inr \<lparr> qr_id = sd_id (hit_document h),
           qr_score = (case hit_score h of None \<Rightarrow> 0 | Some sc \<Rightarrow> sc),
           qr_metadata = JObj (if truthy (sd_text (hit_document h))
                               then [(''text'', sd_text (hit_document h))] else []),
           qr_vector = (if iv then sd_vector (hit_document h) else JUndefined) \<rparr>"
  using assms by (simp add: convert_hit_def parse_metadata_def Let_def)

text \<open>
  \<^bold>\<open>Claim C4.\<close> When the service returns a hit whose metadata string
  \<open>JSON.parse\<close> rejects, the query still succeeds whenever the other hits convert:
  the results of the hits before and after it are what they are without it, and the
  hit itself is returned at its position with the empty metadata object, plus the key
  \<open>text\<close> when its text field is truthy.
\<close>

theorem malformed_metadata_degrades:
  assumes found: "svc_search svc (calls w) (qp_indexName q) (search_options_of q) = Inr (before @ h # after)"
    and malformed: "sd_metadata (hit_document h) = JStr s" "json_parse pf s = None"
    and others: "collect_results pf (qp_includeVector q = Some True) before [] = Inr rs"
                "collect_results pf (qp_includeVector q = Some True) after [] = Inr qs"
  shows "fst (query pf svc w q) =
     Inr (rs @
          \<lparr> qr_id = sd_id (hit_document h),
            qr_score = (case hit_score h of None \<Rightarrow> 0 | Some sc \<Rightarrow> sc),
            qr_metadata = JObj (if truthy (sd_text (hit_document h))
                                then [(''text'', sd_text (hit_document h))] else []),
            qr_vector = (if qp_includeVector q = Some True then sd_vector (hit_document h)
                         else JUndefined) \<rparr> # qs)"
proof -
  let ?iv = "qp_includeVector q = Some True"
  have iv: "(case qp_includeVector q of None \<Rightarrow> False | Some b \<Rightarrow> b) = ?iv"
    by (cases "qp_includeVector q") simp_all
  have "collect_results pf ?iv (before @ h # after) [] =
      (case collect_results pf ?iv (h # after) [] of Inl e \<Rightarrow> Inl e | Inr qs' \<Rightarrow> Inr (rs @ qs'))"
    by (simp add: collect_results_append others(1) del: collect_results.simps)
  also have "collect_results pf ?iv (h # after) [] =
      Inr (\<lparr> qr_id = sd_id (hit_document h),
            qr_score = (case hit_score h of None \<Rightarrow> 0 | Some sc \<Rightarrow> sc),
            qr_metadata = JObj (if truthy (sd_text (hit_document h))
                                then [(''text'', sd_text (hit_document h))] else []),
            qr_vector = (if ?iv then sd_vector (hit_document h) else JUndefined) \<rparr> # qs)"
    by (simp add: collect_results_Cons convert_hit_malformed[OF malformed] others(2)
             del: collect_results.simps)
  finally show ?thesis
    by (simp add: query_eq query_answer_def found iv)
qed


theorem malformed_metadata_degrades_witness:
  "svc_search echo_service (calls world_broken) ''documents'' (search_options_of plain_query) =
     Inr ([as_hit doc_a] @ as_hit doc_broken # [as_hit doc_b]) \<and>
   sd_metadata (hit_document (as_hit doc_broken)) = JStr ''{oops'' \<and>
   json_parse toy_platform ''{oops'' = None \<and>
   fst (query toy_platform echo_service world_broken plain_query) =
     Inr [\<lparr> qr_id = ''a'', qr_score = 1, qr_metadata = JObj [], qr_vector = JUndefined \<rparr>,
          \<lparr> qr_id = ''c'', qr_score = 1, qr_metadata = JObj [(''text'', JStr ''kept'')],
            qr_vector = JUndefined \<rparr>,
          \<lparr> qr_id = ''b'', qr_score = 1, qr_metadata = JObj [], qr_vector = JUndefined \<rparr>]"
proof -
  have n: "qp_indexName plain_query = ''documents''" "qp_includeVector plain_query = None"
    by (simp_all add: plain_query_def)
  have f: "svc_search echo_service (calls world_broken) (qp_indexName plain_query)
             (search_options_of plain_query) =
           Inr ([as_hit doc_a] @ as_hit doc_broken # [as_hit doc_b])"
    by (simp add: echo_service_def world_broken_def search_options_of_def plain_query_def
          as_hit_def)
  have m: "sd_metadata (hit_document (as_hit doc_broken)) = JStr ''{oops''"
    by (simp add: as_hit_def stored_form_def doc_broken_def)
  have p: "json_parse toy_platform ''{oops'' = None"
    by (simp add: toy_platform_def)
  have a: "collect_results toy_platform (qp_includeVector plain_query = Some True) [as_hit doc_a] [] =
      Inr [\<lparr> qr_id = ''a'', qr_score = 1, qr_metadata = JObj [], qr_vector = JUndefined \<rparr>]"
    by (simp add: n convert_hit_def parse_metadata_def as_hit_def stored_form_def doc_a_def
          toy_platform_def Let_def)
  have b: "collect_results toy_platform (qp_includeVector plain_query = Some True) [as_hit doc_b] [] =
      Inr [\<lparr> qr_id = ''b'', qr_score = 1, qr_metadata = JObj [], qr_vector = JUndefined \<rparr>]"
    by (simp add: n convert_hit_def parse_metadata_def as_hit_def stored_form_def doc_b_def
          toy_platform_def Let_def)
  from malformed_metadata_degrades[OF f m p a b] f m p
  show ?thesis
    by (simp add: n as_hit_def stored_form_def doc_broken_def)
qed


subsection \<open>Upsert: documents, ids and uploads\<close>

lemma uploaded_append:
  "uploaded (xs @ ys) n = uploaded xs n @ uploaded ys n"
  by (induction xs n rule: uploaded.induct) simp_all

lemma slice_drop:
  "slice xs i (i + k) @ drop (i + k) xs = drop i xs"
  by (simp add: slice_def add.commute[of i k] flip: drop_drop)

lemma upload_batches_success:
  "upload_batches svc n docs i acc w = (Inr r, w') \<Longrightarrow>
     r = acc @ map doc_id (drop i docs) \<and>
     uploaded (calls w') n = uploaded (calls w) n @ drop i docs \<and>
     uuids_drawn w' = uuids_drawn w"
proof (induction svc n docs i acc w rule: upload_batches.induct)
  case (1 svc n docs i acc w)
  show ?case
  proof (cases "i < length docs")
    case False
    with "1.prems" show ?thesis
      by (simp add: upload_batches.simps[of svc n docs i])
  next
    case True
    let ?b = "slice docs i (i + batchSize)"
    from True "1.prems" have ok: "svc_uploadDocuments svc (calls w) n ?b = None"
      by (simp add: upload_batches.simps[of svc n docs i] split: option.splits)
    with True "1.prems"
    have rec: "upload_batches svc n docs (i + batchSize) (acc @ map doc_id ?b)
                 (issue (UploadDocuments n ?b) w) = (Inr r, w')"
      by (simp add: upload_batches.simps[of svc n docs i])
    from "1.IH"[OF True ok rec]
    have "r = (acc @ map doc_id ?b) @ map doc_id (drop (i + batchSize) docs)"
      and "uploaded (calls w') n =
             uploaded (calls (issue (UploadDocuments n ?b) w)) n @ drop (i + batchSize) docs"
      and "uuids_drawn w' = uuids_drawn (issue (UploadDocuments n ?b) w)"
      by simp_all
    moreover have "map doc_id ?b @ map doc_id (drop (i + batchSize) docs) = map doc_id (drop i docs)"
      using slice_drop[of docs i batchSize] by (metis map_append)
    ultimately show ?thesis
      using slice_drop[of docs i batchSize]
      by (simp add: uploaded_append issue_def)
  qed
qed

lemma prepare_documents_shape:
  "prepare_documents pf ids md i vs n = (ds, n') \<Longrightarrow>
     length ds = length vs \<and> map doc_vector ds = map Some vs"
proof (induction vs arbitrary: i n ds n')
  case Nil
  then show ?case by simp
next
  case (Cons v vs)
  then show ?case
    by (auto simp: Let_def split: prod.splits)
qed

lemma prepare_documents_fresh:
  "prepare_documents pf None md i vs n = (ds, n') \<Longrightarrow>
     map doc_id ds = map (randomUUID pf) [n ..< n + length vs] \<and> n' = n + length vs"
proof (induction vs arbitrary: i n ds n')
  case Nil
  then show ?case by simp
next
  case (Cons v vs)
  from Cons.prems obtain ds1 where
    rec: "prepare_documents pf None md (Suc i) vs (Suc n) = (ds1, n')"
    and ds: "ds = \<lparr> doc_id = randomUUID pf n, doc_vector = Some v,
                   doc_metadata = Some (json_stringify pf (JObj (if i < length md then md ! i else []))),
                   doc_text = Some (coalesce (get_prop (if i < length md then md ! i else []) ''text'') (JStr [])) \<rparr> # ds1"
    by (auto simp: Let_def split: prod.splits)
  have "[n ..< n + length (v # vs)] = n # [Suc n ..< n + length (v # vs)]"
    by (rule upt_conv_Cons) simp
  moreover have "n + length (v # vs) = Suc n + length vs"
    by simp
  ultimately have u: "[n ..< n + length (v # vs)] = n # [Suc n ..< Suc n + length vs]"
    by (simp only:)
  from Cons.IH[OF rec] have "map doc_id ds1 = map (randomUUID pf) [Suc n ..< Suc n + length vs]"
    and "n' = Suc n + length vs"
    by simp_all
  with ds show ?case
    unfolding u by simp
qed

lemma prepare_documents_explicit:
  "prepare_documents pf (Some xs) md i vs n = (ds, n') \<Longrightarrow> i + length vs \<le> length xs \<Longrightarrow>
     map doc_id ds = take (length vs) (drop i xs) \<and> n' = n"
proof (induction vs arbitrary: i n ds n')
  case Nil
  then show ?case by simp
next
  case (Cons v vs)
  from Cons.prems(2) have i: "i < length xs" by simp
  with Cons.prems(1) obtain ds1 where
    rec: "prepare_documents pf (Some xs) md (Suc i) vs n = (ds1, n')"
    and ds: "doc_id (hd ds) = xs ! i" "ds = hd ds # ds1"
    by (auto simp: Let_def split: prod.splits)
  from Cons.prems(2) have "Suc i + length vs \<le> length xs" by simp
  from Cons.IH[OF rec this] have "map doc_id ds1 = take (length vs) (drop (Suc i) xs)" "n' = n"
    by simp_all
  moreover have "drop i xs = xs ! i # drop (Suc i) xs"
    using i by (simp add: Cons_nth_drop_Suc)
  ultimately show ?case
    using ds by (metis length_Cons list.simps(9) take_Suc_Cons)
qed

lemma prepare_documents_fields:
  "prepare_documents pf ids md i vs n = (ds, n') \<Longrightarrow> k < length vs \<Longrightarrow>
     doc_metadata (ds ! k) = Some (json_stringify pf (JObj (meta_at (Some md) (i + k)))) \<and>
     doc_text (ds ! k) = Some (coalesce (get_prop (meta_at (Some md) (i + k)) ''text'') (JStr []))"
proof (induction vs arbitrary: i n ds n' k)
  case Nil
  then show ?case by simp
next
  case (Cons v vs)
  from Cons.prems(1) obtain d ds1 n1 where
    rec: "prepare_documents pf ids md (Suc i) vs n1 = (ds1, n')"
    and ds: "ds = d # ds1"
    and d: "doc_metadata d = Some (json_stringify pf (JObj (meta_at (Some md) i)))"
           "doc_text d = Some (coalesce (get_prop (meta_at (Some md) i) ''text'') (JStr []))"
    by (auto simp: Let_def meta_at_def split: prod.splits)
  show ?case
  proof (cases k)
    case 0
    with ds d show ?thesis by simp
  next
    case (Suc k')
    with Cons.prems(2) have "k' < length vs" by simp
    from Cons.IH[OF rec this] ds Suc show ?thesis by simp
  qed
qed

lemma replace_step_preserves:
  "replace_step pf svc w p = (r, w2) \<Longrightarrow>
     uuids_drawn w2 = uuids_drawn w \<and> uploaded (calls w2) n = uploaded (calls w) n"
  by (auto simp: replace_step_def deleteVectors_def query_eq Let_def issue_def getSearchClient_def
        uploaded_append
        split: option.splits if_splits sum.splits)


lemma meta_at_default:
  "meta_at (Some (case m of None \<Rightarrow> [] | Some ms \<Rightarrow> ms)) i = meta_at m i"
  by (cases m) (simp_all add: meta_at_def)

lemma upsert_success:
  assumes "upsert pf svc w p = (Inr ids, w')"
  shows "\<exists>docs n.
     prepare_documents pf (up_ids p) (case up_metadata p of None \<Rightarrow> [] | Some ms \<Rightarrow> ms) 0
       (up_vectors p) (uuids_drawn w) = (docs, n) \<and>
     ids = map doc_id docs \<and> new_uploads w w' (up_indexName p) = docs \<and> uuids_drawn w' = n"
proof -
  let ?n = "up_indexName p"
  let ?md = "case up_metadata p of None \<Rightarrow> [] | Some ms \<Rightarrow> ms"
  obtain r w2 where rs: "replace_step pf svc (getSearchClient ?n w) p = (r, w2)"
    by (cases "replace_step pf svc (getSearchClient ?n w) p")
  obtain docs n where pd: "prepare_documents pf (up_ids p) ?md 0 (up_vectors p) (uuids_drawn w2) = (docs, n)"
    by (cases "prepare_documents pf (up_ids p) ?md 0 (up_vectors p) (uuids_drawn w2)")
  from assms rs pd have ub: "upload_batches svc ?n docs 0 [] (w2\<lparr> uuids_drawn := n \<rparr>) = (Inr ids, w')"
    by (cases r) (simp_all add: upsert_def Let_def)
  from replace_step_preserves[OF rs, of ?n]
  have pres: "uuids_drawn w2 = uuids_drawn w" "uploaded (calls w2) ?n = uploaded (calls w) ?n"
    by (simp_all add: getSearchClient_def)
  from upload_batches_success[OF ub]
  have "ids = map doc_id docs" "uploaded (calls w') ?n = uploaded (calls w2) ?n @ docs"
       "uuids_drawn w' = n"
    by simp_all
  with pd pres show ?thesis
    by (simp add: new_uploads_def)
qed

text \<open>
  \<^bold>\<open>Claim C2.\<close> Whenever \<open>upsert\<close> returns ids for \<open>N\<close> vectors, it returns \<open>N\<close>
  ids, and they are, position by position, the ids of the documents that the call
  uploaded, whose vectors are the input vectors in input order. Without explicit ids
  they are the \<open>N\<close> UUIDs that the call drew from the generator, in order, hence
  distinct when the generator does not repeat itself. With an explicit list of \<open>N\<close>
  ids they are exactly that list.
\<close>

theorem upsert_returns_assigned_ids:
  assumes "upsert pf svc w p = (Inr ids, w')"
  shows "length ids = length (up_vectors p) \<and>
         map doc_id (new_uploads w w' (up_indexName p)) = ids \<and>
         map doc_vector (new_uploads w w' (up_indexName p)) = map Some (up_vectors p) \<and>
         (up_ids p = None \<longrightarrow>
            ids = map (randomUUID pf) [uuids_drawn w ..< uuids_drawn w + length (up_vectors p)] \<and>
            uuids_drawn w' = uuids_drawn w + length (up_vectors p) \<and>
            (inj (randomUUID pf) \<longrightarrow> distinct ids)) \<and>
         (\<forall>xs. up_ids p = Some xs \<and> length xs = length (up_vectors p) \<longrightarrow> ids = xs)"
proof -
  let ?md = "case up_metadata p of None \<Rightarrow> [] | Some ms \<Rightarrow> ms"
  from upsert_success[OF assms] obtain docs n where
    pd: "prepare_documents pf (up_ids p) ?md 0 (up_vectors p) (uuids_drawn w) = (docs, n)"
    and ids: "ids = map doc_id docs"
    and new: "new_uploads w w' (up_indexName p) = docs"
    and n: "uuids_drawn w' = n"
    by blast
  from prepare_documents_shape[OF pd]
  have shape: "length docs = length (up_vectors p)" "map doc_vector docs = map Some (up_vectors p)"
    by simp_all
  have fresh: "ids = map (randomUUID pf) [uuids_drawn w ..< uuids_drawn w + length (up_vectors p)] \<and>
            uuids_drawn w' = uuids_drawn w + length (up_vectors p) \<and>
            (inj (randomUUID pf) \<longrightarrow> distinct ids)"
    if "up_ids p = None"
  proof -
    from pd that prepare_documents_fresh[of pf ?md 0 "up_vectors p" "uuids_drawn w" docs n]
    have e: "map doc_id docs = map (randomUUID pf) [uuids_drawn w ..< uuids_drawn w + length (up_vectors p)]"
      and "n = uuids_drawn w + length (up_vectors p)"
      by simp_all
    moreover have "distinct (map (randomUUID pf) [uuids_drawn w ..< uuids_drawn w + length (up_vectors p)])"
      if "inj (randomUUID pf)"
      using that by (simp add: distinct_map inj_on_def inj_def)
    ultimately show ?thesis
      using ids n by simp
  qed
  have explicit: "ids = xs" if "up_ids p = Some xs" "length xs = length (up_vectors p)" for xs
  proof -
    from pd that prepare_documents_explicit[of pf xs ?md 0 "up_vectors p" "uuids_drawn w" docs n]
    have "map doc_id docs = take (length (up_vectors p)) (drop 0 xs)"
      by simp
    with that ids show ?thesis by simp
  qed
  have l: "length ids = length (up_vectors p)"
    using shape(1) ids by simp
  have a: "map doc_id (new_uploads w w' (up_indexName p)) = ids"
    using new ids by simp
  have b: "map doc_vector (new_uploads w w' (up_indexName p)) = map Some (up_vectors p)"
    using new shape(2) by simp
  from l a b fresh explicit show ?thesis
    by blast
qed

lemma collect_results_nth:
  "collect_results pf iv hs [] = Inr rs \<Longrightarrow> j < length hs \<Longrightarrow>
     convert_hit pf iv (hs ! j) = Inr (rs ! j)"
proof (induction hs arbitrary: rs j)
  case Nil
  then show ?case by simp
next
  case (Cons h hs)
  from Cons.prems(1) obtain r rs' where
    h: "convert_hit pf iv h = Inr r" and t: "collect_results pf iv hs [] = Inr rs'"
    and rs: "rs = r # rs'"
    by (auto simp: collect_results_Cons simp del: collect_results.simps split: sum.splits)
  show ?case
  proof (cases j)
    case 0
    with h rs show ?thesis by simp
  next
    case (Suc j')
    with Cons.prems(2) have "j' < length hs" by simp
    from Cons.IH[OF t this] rs Suc show ?thesis by simp
  qed
qed

lemma convert_stored:
  assumes codec: "json_parse pf (json_stringify pf (JObj M)) = Some (JObj M)"
                 "json_stringify pf (JObj M) \<noteq> []"
    and d: "doc_metadata d = Some (json_stringify pf (JObj M))"
           "doc_text d = Some (coalesce (get_prop M ''text'') (JStr []))"
    and h: "holds_fields_of (hit_document h) d"
  shows "\<exists>r R. convert_hit pf iv h = Inr r \<and> qr_id r = doc_id d \<and>
           qr_metadata r = JObj R \<and> map_of R = map_of M"
proof -
  let ?t = "coalesce (get_prop M ''text'') (JStr [])"
  have pm: "parse_metadata pf (sd_metadata (hit_document h)) = JObj M"
    using codec d(1) h by (simp add: parse_metadata_def stored_form_def holds_fields_of_def)
  have tx: "sd_text (hit_document h) = ?t"
    using d(2) h by (simp add: stored_form_def holds_fields_of_def)
  have id: "sd_id (hit_document h) = doc_id d"
    using h by (simp add: stored_form_def holds_fields_of_def)
  show ?thesis
  proof (cases "truthy ?t")
    case False
    then show ?thesis
      using pm tx id by (simp add: convert_hit_def Let_def)
  next
    case True
    then have "\<not> nullish (get_prop M ''text'')"
      by (auto simp: coalesce_def)
    then have "map_of M ''text'' = Some ?t"
      by (auto simp: coalesce_def get_prop_def split: option.splits)
    then have "map_of (AList.update ''text'' ?t M) = map_of M"
      by (simp add: update_conv' fun_upd_idem)
    with True show ?thesis
      using pm tx id by (simp add: convert_hit_def Let_def)
  qed
qed

text \<open>
  \<^bold>\<open>Claim C3.\<close> Let a record be upserted at position \<open>i\<close> with the metadata object
  \<open>M\<close>, which the JSON codec carries through unchanged (\<open>JSON.parse\<close> of
  \<open>JSON.stringify\<close> of \<open>M\<close> is \<open>M\<close>, and the string is not empty). When a later
  query, in any state, receives from the service a hit that holds that record's id,
  metadata and text as they were uploaded, the result for that hit has the record's
  id and a metadata object with the same value as \<open>M\<close> under \<open>text\<close> and under
  every other key.
\<close>

theorem metadata_round_trip:
  assumes codec: "json_parse pf (json_stringify pf (JObj M)) = Some (JObj M)"
                 "json_stringify pf (JObj M) \<noteq> []"
    and up: "upsert pf svc w p = (Inr ids, w')"
    and at: "i < length (up_vectors p)" "meta_at (up_metadata p) i = M"
    and found: "svc_search svc (calls w'') (qp_indexName q) (search_options_of q) = Inr hits"
    and hit: "j < length hits"
             "holds_fields_of (hit_document (hits ! j)) (new_uploads w w' (up_indexName p) ! i)"
    and answered: "fst (query pf svc w'' q) = Inr results"
  shows "qr_id (results ! j) = ids ! i \<and>
         (\<exists>R. qr_metadata (results ! j) = JObj R \<and>
              map_of R ''text'' = map_of M ''text'' \<and> (\<forall>k. map_of R k = map_of M k))"
proof -
  let ?md = "case up_metadata p of None \<Rightarrow> [] | Some ms \<Rightarrow> ms"
  let ?iv = "case qp_includeVector q of None \<Rightarrow> False | Some b \<Rightarrow> b"
  from upsert_success[OF up] obtain docs n where
    pd: "prepare_documents pf (up_ids p) ?md 0 (up_vectors p) (uuids_drawn w) = (docs, n)"
    and ids: "ids = map doc_id docs"
    and new: "new_uploads w w' (up_indexName p) = docs"
    by blast
  from prepare_documents_shape[OF pd] at(1) have len: "i < length docs" by simp
  from prepare_documents_fields[OF pd at(1)] at(2)
  have d: "doc_metadata (docs ! i) = Some (json_stringify pf (JObj M))"
          "doc_text (docs ! i) = Some (coalesce (get_prop M ''text'') (JStr []))"
    by (simp_all add: meta_at_default)
  from hit(2) new have h: "holds_fields_of (hit_document (hits ! j)) (docs ! i)" by simp
  from convert_stored[OF codec d h, of ?iv] obtain r R where
    r: "convert_hit pf ?iv (hits ! j) = Inr r" "qr_id r = doc_id (docs ! i)"
       "qr_metadata r = JObj R" "map_of R = map_of M"
    by blast
  from answered found have "collect_results pf ?iv hits [] = Inr results"
    by (simp add: query_eq query_answer_def)
  from collect_results_nth[OF this hit(1)] r(1) have "results ! j = r" by simp
  with r ids len show ?thesis by simp
qed


lemma upload_batches_single:
  assumes "docs \<noteq> []" "length docs \<le> batchSize"
  shows "upload_batches svc n docs 0 acc w =
     (case svc_uploadDocuments svc (calls w) n docs of
        Some e \<Rightarrow> (Inl e, issue (UploadDocuments n docs) w)
      | None \<Rightarrow> (Inr (acc @ map doc_id docs), issue (UploadDocuments n docs) w))"
proof -
  have s: "slice docs 0 batchSize = docs"
    using assms(2) by (simp add: slice_def)
  have e: "upload_batches svc n docs batchSize acc' w' = (Inr acc', w')" for acc' w'
    using assms(2) by (simp add: upload_batches.simps[of svc n docs batchSize])
  show ?thesis
    using assms(1) by (simp add: upload_batches.simps[of svc n docs 0] s e split: option.splits)
qed

lemma small_upsert_run:
  "upsert toy_platform echo_service world0 small_upsert = (Inr [''uuid-'', ''uuid-x''], world_small)"
  by (simp add: upsert_def small_upsert_def replace_step_def Let_def world0_def getSearchClient_def
        toy_platform_def hello_metadata_def get_prop_def coalesce_def upload_batches_single
        batchSize_def echo_service_def issue_def world_small_def doc_hello_def doc_plain_def)

lemma explicit_upsert_run:
  "fst (upsert toy_platform echo_service world0 explicit_upsert) = Inr [''x'', ''y'']"
  by (simp add: upsert_def explicit_upsert_def replace_step_def Let_def world0_def getSearchClient_def
        toy_platform_def hello_metadata_def get_prop_def coalesce_def upload_batches_single
        batchSize_def echo_service_def issue_def)

lemma toy_uuids_inj: "inj (randomUUID toy_platform)"
  by (simp add: inj_def toy_platform_def)

theorem upsert_returns_assigned_ids_witness:
  "upsert toy_platform echo_service world0 small_upsert = (Inr [''uuid-'', ''uuid-x''], world_small) \<and>
   up_ids small_upsert = None \<and> inj (randomUUID toy_platform) \<and>
   distinct [''uuid-'', ''uuid-x''] \<and>
   [''uuid-'', ''uuid-x''] = map (randomUUID toy_platform) [0 ..< 2] \<and>
   map doc_id (new_uploads world0 world_small ''documents'') = [''uuid-'', ''uuid-x''] \<and>
   map doc_vector (new_uploads world0 world_small ''documents'') = [Some [1], Some [2]] \<and>
   up_ids explicit_upsert = Some [''x'', ''y''] \<and>
   fst (upsert toy_platform echo_service world0 explicit_upsert) = Inr [''x'', ''y'']"
proof -
  have n: "up_ids small_upsert = None" "up_indexName small_upsert = ''documents''"
          "up_vectors small_upsert = [[1], [2]]" "uuids_drawn world0 = 0"
    by (simp_all add: small_upsert_def world0_def)
  have x: "up_ids explicit_upsert = Some [''x'', ''y'']"
    by (simp add: explicit_upsert_def)
  note T = upsert_returns_assigned_ids[OF small_upsert_run]
  from T n(1) toy_uuids_inj have d: "distinct [''uuid-'', ''uuid-x'']"
    by blast
  from T n(1) have "[''uuid-'', ''uuid-x''] =
      map (randomUUID toy_platform)
        [uuids_drawn world0 ..< uuids_drawn world0 + length (up_vectors small_upsert)]"
    by blast
  then have f: "[''uuid-'', ''uuid-x''] = map (randomUUID toy_platform) [0 ..< 2]"
    by (simp add: n numeral_2_eq_2)
  from T have a: "map doc_id (new_uploads world0 world_small ''documents'') = [''uuid-'', ''uuid-x'']"
    and b: "map doc_vector (new_uploads world0 world_small ''documents'') = [Some [1], Some [2]]"
    unfolding n by simp_all
  from small_upsert_run n(1) toy_uuids_inj d f a b x explicit_upsert_run show ?thesis
    by blast
qed

lemma small_query_run:
  "fst (query toy_platform echo_service world_small plain_query) =
     Inr [\<lparr> qr_id = ''uuid-'', qr_score = 1, qr_metadata = JObj hello_metadata,
            qr_vector = JUndefined \<rparr>,
          \<lparr> qr_id = ''uuid-x'', qr_score = 1, qr_metadata = JObj [], qr_vector = JUndefined \<rparr>]"
  by (simp add: query_eq query_answer_def echo_service_def world_small_def search_options_of_def
        plain_query_def convert_hit_def parse_metadata_def stored_form_def doc_hello_def
        doc_plain_def toy_platform_def Let_def hello_metadata_def)

theorem metadata_round_trip_witness:
  "json_parse toy_platform (json_stringify toy_platform (JObj hello_metadata)) = Some (JObj hello_metadata) \<and>
   map_of hello_metadata ''text'' = Some (JStr ''hello'') \<and>
   upsert toy_platform echo_service world0 small_upsert = (Inr [''uuid-'', ''uuid-x''], world_small) \<and>
   qr_id (projr (fst (query toy_platform echo_service world_small plain_query)) ! 0) = ''uuid-'' \<and>
   (\<exists>R. qr_metadata (projr (fst (query toy_platform echo_service world_small plain_query)) ! 0) = JObj R \<and>
        map_of R ''text'' = Some (JStr ''hello'') \<and>
        map_of R ''source'' = Some (JStr ''a.pdf''))"
proof -
  let ?hits = "[as_hit doc_hello, as_hit doc_plain]"
  let ?results = "projr (fst (query toy_platform echo_service world_small plain_query))"
  have codec: "json_parse toy_platform (json_stringify toy_platform (JObj hello_metadata)) =
                 Some (JObj hello_metadata)"
              "json_stringify toy_platform (JObj hello_metadata) \<noteq> []"
    by (simp_all add: toy_platform_def)
  have at: "0 < length (up_vectors small_upsert)" "meta_at (up_metadata small_upsert) 0 = hello_metadata"
    by (simp_all add: small_upsert_def meta_at_def)
  have found: "svc_search echo_service (calls world_small) (qp_indexName plain_query)
                 (search_options_of plain_query) = Inr ?hits"
    by (simp add: echo_service_def world_small_def search_options_of_def plain_query_def as_hit_def)
  have hit: "0 < length ?hits"
            "holds_fields_of (hit_document (?hits ! 0))
               (new_uploads world0 world_small (up_indexName small_upsert) ! 0)"
    by (simp_all add: as_hit_def new_uploads_def world0_def world_small_def small_upsert_def
          holds_fields_of_def)
  have answered: "fst (query toy_platform echo_service world_small plain_query) = Inr ?results"
    by (simp add: small_query_run)
  have m: "map_of hello_metadata ''text'' = Some (JStr ''hello'')"
          "map_of hello_metadata ''source'' = Some (JStr ''a.pdf'')"
    by (simp_all add: hello_metadata_def)
  from metadata_round_trip[OF codec small_upsert_run at found hit answered] m
  have "qr_id (?results ! 0) = ''uuid-'' \<and>
        (\<exists>R. qr_metadata (?results ! 0) = JObj R \<and>
             map_of R ''text'' = Some (JStr ''hello'') \<and> map_of R ''source'' = Some (JStr ''a.pdf''))"
    by auto
  with codec(1) m(1) small_upsert_run show ?thesis
    by blast
qed


subsection \<open>Upsert: a rejected batch\<close>

lemma upload_batches_accepts:
  "\<forall>h ds. svc_uploadDocuments svc h n ds = None \<Longrightarrow>
     \<exists>r w'. upload_batches svc n docs i acc w = (Inr r, w')"
proof (induction svc n docs i acc w rule: upload_batches.induct)
  case (1 svc n docs i acc w)
  show ?case
  proof (cases "i < length docs")
    case True
    from "1.prems"
    have ok: "svc_uploadDocuments svc (calls w) n (slice docs i (i + batchSize)) = None"
      by simp
    from "1.IH"[OF True ok "1.prems"] True ok show ?thesis
      by (simp add: upload_batches.simps[of svc n docs i])
  next
    case False
    then show ?thesis
      by (simp add: upload_batches.simps[of svc n docs i])
  qed
qed

lemma upsert_returns:
  assumes "up_deleteFilter p = None"
    and "\<forall>h ds. svc_uploadDocuments svc h (up_indexName p) ds = None"
  shows "\<exists>ids w'. upsert pf svc w p = (Inr ids, w')"
  using assms(1) upload_batches_accepts[OF assms(2)]
  by (simp add: upsert_def replace_step_def Let_def split: prod.splits)

lemma batches_Nil [simp]: "batches [] = []"
  by (simp add: batches.simps)

lemma batches_step: "xs \<noteq> [] \<Longrightarrow> batches xs = take batchSize xs # batches (drop batchSize xs)"
  by (subst batches.simps) simp

lemma batches_drop:
  "i < length docs \<Longrightarrow>
     batches (drop i docs) = slice docs i (i + batchSize) # batches (drop (i + batchSize) docs)"
  by (simp add: batches_step slice_def add.commute)

lemma world_calls_issue:
  "issue c w = w\<lparr> calls := calls w @ [c] \<rparr>"
  by (simp add: issue_def)

lemma upload_batches_failure:
  assumes "k < length (batches (drop i docs))"
    and "\<forall>j<k. svc_uploadDocuments svc
                  (calls w @ map (UploadDocuments n) (take j (batches (drop i docs)))) n
                  (batches (drop i docs) ! j) = None"
    and "svc_uploadDocuments svc
           (calls w @ map (UploadDocuments n) (take k (batches (drop i docs)))) n
           (batches (drop i docs) ! k) = Some e"
  shows "upload_batches svc n docs i acc w =
           (Inl e, w\<lparr> calls := calls w @ map (UploadDocuments n) (take (Suc k) (batches (drop i docs))) \<rparr>)"
  using assms
proof (induction svc n docs i acc w arbitrary: k rule: upload_batches.induct)
  case (1 svc n docs i acc w)
  have lt: "i < length docs"
  proof (rule ccontr)
    assume "\<not> i < length docs"
    then have "batches (drop i docs) = []" by simp
    with "1.prems"(1) show False by simp
  qed
  let ?b = "slice docs i (i + batchSize)"
  let ?B = "batches (drop (i + batchSize) docs)"
  have B: "batches (drop i docs) = ?b # ?B"
    using lt by (rule batches_drop)
  show ?case
  proof (cases k)
    case 0
    with "1.prems"(3) B have "svc_uploadDocuments svc (calls w) n ?b = Some e"
      by simp
    with lt 0 B show ?thesis
      by (simp add: upload_batches.simps[of svc n docs i] issue_def)
  next
    case (Suc k')
    from "1.prems"(2) Suc B have ok: "svc_uploadDocuments svc (calls w) n ?b = None"
      by (auto dest: spec[of _ 0])
    let ?w1 = "issue (UploadDocuments n ?b) w"
    have k': "k' < length ?B"
      using "1.prems"(1) Suc B by simp
    have earlier: "\<forall>j<k'. svc_uploadDocuments svc
                  (calls ?w1 @ map (UploadDocuments n) (take j ?B)) n (?B ! j) = None"
    proof (intro allI impI)
      fix j assume "j < k'"
      then have "Suc j < k" using Suc by simp
      with "1.prems"(2) have "svc_uploadDocuments svc
                  (calls w @ map (UploadDocuments n) (take (Suc j) (batches (drop i docs)))) n
                  (batches (drop i docs) ! Suc j) = None"
        by blast
      then show "svc_uploadDocuments svc
                  (calls ?w1 @ map (UploadDocuments n) (take j ?B)) n (?B ! j) = None"
        by (simp add: B)
    qed
    have failing: "svc_uploadDocuments svc
           (calls ?w1 @ map (UploadDocuments n) (take k' ?B)) n (?B ! k') = Some e"
      using "1.prems"(3) Suc by (simp add: B)
    from "1.IH"[OF lt ok k' earlier failing]
    have "upload_batches svc n docs (i + batchSize) (acc @ map doc_id ?b) ?w1 =
           (Inl e, ?w1\<lparr> calls := calls ?w1 @ map (UploadDocuments n) (take (Suc k') ?B) \<rparr>)" .
    with lt ok Suc B show ?thesis
      by (simp add: upload_batches.simps[of svc n docs i] issue_def)
  qed
qed


lemma upsert_failure:
  assumes pre: "replace_step pf svc (getSearchClient (up_indexName p) w) p = (Inr (), w2)"
    and docs: "prepare_documents pf (up_ids p) (case up_metadata p of None \<Rightarrow> [] | Some ms \<Rightarrow> ms) 0
                 (up_vectors p) (uuids_drawn w2) = (docs, n)"
    and k: "k < length (batches docs)"
    and earlier: "\<forall>j<k. svc_uploadDocuments svc
                    (calls w2 @ map (UploadDocuments (up_indexName p)) (take j (batches docs)))
                    (up_indexName p) (batches docs ! j) = None"
    and failing: "svc_uploadDocuments svc
                    (calls w2 @ map (UploadDocuments (up_indexName p)) (take k (batches docs)))
                    (up_indexName p) (batches docs ! k) = Some e"
  shows "upsert pf svc w p =
          (Inl e, w2\<lparr> uuids_drawn := n,
                        calls := calls w2 @
                          map (UploadDocuments (up_indexName p)) (take (Suc k) (batches docs)) \<rparr>)"
proof -
  let ?w3 = "w2\<lparr> uuids_drawn := n \<rparr>"
  have "upload_batches svc (up_indexName p) docs 0 [] ?w3 =
          (Inl e, ?w3\<lparr> calls := calls ?w3 @
                     map (UploadDocuments (up_indexName p)) (take (Suc k) (batches (drop 0 docs))) \<rparr>)"
    using k earlier failing by (intro upload_batches_failure) simp_all
  then show ?thesis
    using pre docs by (simp add: upsert_def Let_def)
qed

text \<open>
  \<^bold>\<open>Claim C1, amended.\<close> In an upsert whose delete step (if any) succeeded, let batch
  \<open>k\<close> be the first batch that the service rejects, every earlier batch being
  accepted. Then the calls of the upload loop are the batches \<open>0 .. k\<close> in order
  and nothing else: no later batch is issued. The call ends with the service's
  error \<open>e\<close>, and with it alone: no id is returned, whatever the earlier batches
  confirmed.
\<close>

theorem batch_failure_aborts:
  assumes pre: "replace_step pf svc (getSearchClient (up_indexName p) w) p = (Inr (), w2)"
    and docs: "prepare_documents pf (up_ids p) (case up_metadata p of None \<Rightarrow> [] | Some ms \<Rightarrow> ms) 0
                 (up_vectors p) (uuids_drawn w2) = (docs, n)"
    and k: "k < length (batches docs)"
    and earlier: "\<forall>j<k. svc_uploadDocuments svc
                    (calls w2 @ map (UploadDocuments (up_indexName p)) (take j (batches docs)))
                    (up_indexName p) (batches docs ! j) = None"
    and failing: "svc_uploadDocuments svc
                    (calls w2 @ map (UploadDocuments (up_indexName p)) (take k (batches docs)))
                    (up_indexName p) (batches docs ! k) = Some e"
  shows "fst (upsert pf svc w p) = Inl e \<and>
         returned_ids (fst (upsert pf svc w p)) = None \<and>
         calls (snd (upsert pf svc w p)) =
           calls w2 @ map (UploadDocuments (up_indexName p)) (take (Suc k) (batches docs))"
  using upsert_failure[OF assms] by (simp add: returned_ids_def)

lemma length_big_documents: "length big_documents = 1001"
  using prepare_documents_shape[of toy_platform None "[]" 0 "replicate 1001 [0]" 0
          big_documents "snd (prepare_documents toy_platform None [] 0 (replicate 1001 [0]) 0)"]
  by (simp add: big_documents_def)

lemma batches_big_documents:
  "batches big_documents = [take 1000 big_documents, drop 1000 big_documents]"
proof -
  have 1: "big_documents \<noteq> []"
    using length_big_documents by auto
  have 2: "drop batchSize big_documents \<noteq> []"
    using length_big_documents by (simp add: batchSize_def)
  have 3: "drop batchSize (drop batchSize big_documents) = []"
    using length_big_documents by (simp add: batchSize_def)
  have 4: "take batchSize (drop batchSize big_documents) = drop batchSize big_documents"
    using length_big_documents by (simp add: batchSize_def)
  show ?thesis
    using batches_step[OF 1] batches_step[OF 2] 3 4
    by (simp add: batchSize_def)
qed

lemma calls_world0: "calls world0 = []"
  by (simp add: world0_def)

lemma big_upsert_pre:
  "replace_step toy_platform flaky_service (getSearchClient (up_indexName big_upsert) world0) big_upsert =
     (Inr (), getSearchClient ''documents'' world0)"
  by (simp add: replace_step_def big_upsert_def)

lemma big_upsert_docs:
  "prepare_documents toy_platform (up_ids big_upsert)
     (case up_metadata big_upsert of None \<Rightarrow> [] | Some ms \<Rightarrow> ms) 0 (up_vectors big_upsert)
     (uuids_drawn (getSearchClient ''documents'' world0)) =
   (big_documents, snd (prepare_documents toy_platform None [] 0 (replicate 1001 [0]) 0))"
  by (simp add: big_upsert_def big_documents_def getSearchClient_def world0_def)

lemma big_upsert_first:
  "\<forall>j<1. svc_uploadDocuments flaky_service
       (calls (getSearchClient ''documents'' world0) @
          map (UploadDocuments (up_indexName big_upsert)) (take j (batches big_documents)))
       (up_indexName big_upsert) (batches big_documents ! j) = None"
  by (simp add: flaky_service_def world0_def)

lemma big_upsert_second:
  "svc_uploadDocuments flaky_service
       (calls (getSearchClient ''documents'' world0) @
          map (UploadDocuments (up_indexName big_upsert)) (take 1 (batches big_documents)))
       (up_indexName big_upsert) (batches big_documents ! 1) =
     Some (ServiceError ''service unavailable'')"
  by (simp add: flaky_service_def batches_big_documents)

lemma big_upsert_result:
  "fst (upsert toy_platform flaky_service world0 big_upsert) =
     Inl (ServiceError ''service unavailable'')"
  "calls (snd (upsert toy_platform flaky_service world0 big_upsert)) =
     [UploadDocuments ''documents'' (take 1000 big_documents),
      UploadDocuments ''documents'' (drop 1000 big_documents)]"
proof -
  have k: "(1::nat) < length (batches big_documents)"
    by (simp add: batches_big_documents)
  have n: "up_indexName big_upsert = ''documents''"
    by (simp add: big_upsert_def)
  note H = upsert_failure[OF big_upsert_pre big_upsert_docs k big_upsert_first big_upsert_second]
  from H show "fst (upsert toy_platform flaky_service world0 big_upsert) =
     Inl (ServiceError ''service unavailable'')"
    by simp
  from H show "calls (snd (upsert toy_platform flaky_service world0 big_upsert)) =
     [UploadDocuments ''documents'' (take 1000 big_documents),
      UploadDocuments ''documents'' (drop 1000 big_documents)]"
    by (simp add: batches_big_documents n calls_world0)
qed

text \<open>
  \<^bold>\<open>Claim C1\<close> says that after a failed batch the caller receives, with the error,
  the ids that the earlier batches confirmed. An upsert of 1001 vectors to a service
  that accepts the first upload and rejects the second uploads 1000 documents, then
  one, and ends with the error only: the caller has no id in hand.
\<close>

theorem batch_failure_counterexample:
  "svc_uploadDocuments flaky_service (calls world0) ''documents'' (take 1000 big_documents) = None \<and>
   fst (upsert toy_platform flaky_service world0 big_upsert) =
     Inl (ServiceError ''service unavailable'') \<and>
   upload_sizes (calls (snd (upsert toy_platform flaky_service world0 big_upsert))) = [1000, 1] \<and>
   returned_ids (fst (upsert toy_platform flaky_service world0 big_upsert)) = None"
proof -
  have "svc_uploadDocuments flaky_service (calls world0) ''documents'' (take 1000 big_documents) = None"
    by (simp add: flaky_service_def world0_def)
  moreover have "upload_sizes (calls (snd (upsert toy_platform flaky_service world0 big_upsert))) = [1000, 1]"
    by (simp add: big_upsert_result(2) length_big_documents)
  moreover have "returned_ids (fst (upsert toy_platform flaky_service world0 big_upsert)) = None"
    by (simp add: big_upsert_result(1) returned_ids_def)
  ultimately show ?thesis
    using big_upsert_result(1) by blast
qed

theorem batch_failure_aborts_witness:
  "(1::nat) < length (batches big_documents) \<and>
   fst (upsert toy_platform flaky_service world0 big_upsert) =
     Inl (ServiceError ''service unavailable'') \<and>
   returned_ids (fst (upsert toy_platform flaky_service world0 big_upsert)) = None \<and>
   calls (snd (upsert toy_platform flaky_service world0 big_upsert)) =
     [UploadDocuments ''documents'' (take 1000 big_documents),
      UploadDocuments ''documents'' (drop 1000 big_documents)]"
proof -
  have k: "(1::nat) < length (batches big_documents)"
    by (simp add: batches_big_documents)
  have n: "up_indexName big_upsert = ''documents''"
    by (simp add: big_upsert_def)
  note T = batch_failure_aborts[OF big_upsert_pre big_upsert_docs k big_upsert_first big_upsert_second]
  have c: "calls (getSearchClient ''documents'' world0) @
             map (UploadDocuments (up_indexName big_upsert)) (take (Suc 1) (batches big_documents)) =
           [UploadDocuments ''documents'' (take 1000 big_documents),
            UploadDocuments ''documents'' (drop 1000 big_documents)]"
    by (simp add: batches_big_documents n calls_world0)
  from T k show ?thesis
    unfolding c by blast
qed

end
